theory Spec2Isabelle
  imports Main "HOL-Library.Sublist" "HOL-Library.List_Lexorder" "HOL-Library.Char_ord"
begin

section \<open>Python values, dictionaries and exceptions\<close>

text \<open>
  The values that travel through configuration, keyword arguments and request
  parameters are JSON scalars. A Python \<open>str\<close> is a \<open>string\<close>; each character
  stands for one code point (HOL characters cover the code points below 256).
\<close>

datatype pyval = PyNone | PyBool bool | PyInt int | PyStr string

text \<open>Python truthiness, as used by \<open>if x\<close> and \<open>not x\<close>.\<close>

fun truthy :: "pyval \<Rightarrow> bool" where
  "truthy PyNone = False"
| "truthy (PyBool b) = b"
| "truthy (PyInt i) = (i \<noteq> 0)"
| "truthy (PyStr s) = (s \<noteq> [])"

text \<open>A \<open>dict\<close> with string keys in insertion order; the keys are distinct.\<close>

type_synonym pydict = "(string \<times> pyval) list"

text \<open>\<open>d.get(key, default)\<close> on a dictionary given as a map.\<close>

definition dict_get :: "(string \<rightharpoonup> pyval) \<Rightarrow> string \<Rightarrow> pyval \<Rightarrow> pyval" where
  "dict_get d k dflt = (case d k of None \<Rightarrow> dflt | Some v \<Rightarrow> v)"

text \<open>
  The exceptions that leave \<open>_make_request\<close>, \<open>_save_image\<close> and the callers.
  \<open>TypeError\<close> is what \<open>range(max_retries)\<close> raises on a value that is no integer
  and \<open>AttributeError\<close> what \<open>.lower()\<close> raises on one that is no string; no handler
  of the program catches them.
\<close>

datatype error = ConnectionError | ValueError | IOError | TypeError | AttributeError

section \<open>The outside world\<close>

text \<open>
  What \<open>requests.get\<close> gives back on one attempt: a transport failure
  (\<open>requests.exceptions.RequestException\<close>: timeout, reset, DNS), or a response
  with its status code and its \<open>content-type\<close> header, if any.
\<close>

record response =
  status_code :: int
  content_type :: "string option"

datatype outcome = RequestException | Responded response

text \<open>What writing the image file does: it succeeds, \<open>open\<close> fails, or a write fails
  after the file was created.\<close>

datatype save_outcome = Saved | Open_failed | Write_failed

text \<open>The effects the program performs, in order: a request to the image API with its
  URL, parameters and headers, a call of \<open>time.sleep\<close>, a request to the translation
  service, an upload, and the log line that opens an attempt of \<open>edit_image\<close> with the
  model it names.\<close>

datatype event =
    Get string pydict pydict
  | Sleep nat
  | Translate string
  | Upload string
  | Edit_attempt string

record row =
  prompt_hash :: string
  filepath :: string
  last_accessed :: int

record world =
  trace :: "event list"
  files :: "string set"
  db :: "row list"
  draws :: nat

text \<open>
  The collaborators the program calls and does not define: the digest, the remote
  services, the random generator, the disk, the clocks and \<open>pathlib\<close>. The \<open>n\<close>-th
  request to the image API (counting from 0 over the whole run) is answered by
  \<open>http n\<close>.

  The program reads three clocks, each a function of what has happened so far.
  \<open>time_time\<close> is \<open>time.time()\<close>. \<open>current_timestamp\<close> is SQLite's
  \<open>CURRENT_TIMESTAMP\<close>: the UTC date and time to the second, a text
  \<open>YYYY-MM-DD HH:MM:SS\<close>. \<open>datetime_now\<close> is \<open>datetime.now()\<close>: the local date and time
  with no time zone, and its microseconds. A date and time to the second stands here
  as the number of seconds that its calendar reading counts, so that the order of the
  numbers is the order of the texts.
\<close>

record env =
  md5_hex :: "string \<Rightarrow> string"
  http :: "nat \<Rightarrow> outcome"
  translator :: "string \<Rightarrow> string option"
  gofile :: "string \<Rightarrow> string option"
  rng :: "nat \<Rightarrow> nat"
  disk :: "string \<Rightarrow> save_outcome"
  removable :: "string \<Rightarrow> bool"
  time_time :: "event list \<Rightarrow> int"
  current_timestamp :: "event list \<Rightarrow> int"
  datetime_now :: "event list \<Rightarrow> int \<times> nat"
  strftime :: "int \<Rightarrow> string"
  path_join :: "string \<Rightarrow> string \<Rightarrow> string"

fun is_get :: "event \<Rightarrow> bool" where
  "is_get (Get u p h) = True"
| "is_get _ = False"

definition num_gets :: "event list \<Rightarrow> nat" where
  "num_gets tr = length (filter is_get tr)"

fun sleeps :: "event list \<Rightarrow> nat list" where
  "sleeps [] = []"
| "sleeps (Sleep n # tr) = n # sleeps tr"
| "sleeps (_ # tr) = sleeps tr"

definition emit :: "event \<Rightarrow> world \<Rightarrow> world" where
  "emit ev w = w\<lparr>trace := trace w @ [ev]\<rparr>"

section \<open>The retry client: \<open>ImageTool._make_request\<close>\<close>

text \<open>\<open>Response.raise_for_status\<close> raises \<open>HTTPError\<close> for the client and server
  error classes, 400 to 599.\<close>

definition raises_for_status :: "int \<Rightarrow> bool" where
  "raises_for_status s = (400 \<le> s \<and> s < 600)"

text \<open>\<open>content_type = response.headers.get('content-type', '')\<close> and the test
  \<open>'image' not in content_type and 'octet-stream' not in content_type\<close>.\<close>

definition not_an_image :: "response \<Rightarrow> bool" where
  "not_an_image r =
     (let ct = (case content_type r of None \<Rightarrow> [] | Some c \<Rightarrow> c)
      in \<not> sublist ''image'' ct \<and> \<not> sublist ''octet-stream'' ct)"

text \<open>\<open>if attempt < max_retries - 1: time.sleep(2 ** attempt)\<close>.\<close>

definition backoff :: "int \<Rightarrow> nat \<Rightarrow> world \<Rightarrow> world" where
  "backoff max_retries attempt w =
     (if int attempt < max_retries - 1 then emit (Sleep (2 ^ attempt)) w else w)"

text \<open>
  The body of \<open>for attempt in range(max_retries)\<close>, over the attempts still to run.
  When the loop ends, by exhaustion or by \<open>break\<close>, \<open>ConnectionError\<close> is raised.
  \<open>ValueError\<close> is no \<open>RequestException\<close>: neither handler catches it.
\<close>

fun make_request_loop ::
  "env \<Rightarrow> string \<Rightarrow> pydict \<Rightarrow> pydict \<Rightarrow> int \<Rightarrow> nat list \<Rightarrow> world \<Rightarrow> (error + response) \<times> world"
where
  "make_request_loop e url params headers max_retries [] w = (Inl ConnectionError, w)"
| "make_request_loop e url params headers max_retries (attempt # rest) w =
     (let w1 = emit (Get url params headers) w in
      case http e (num_gets (trace w)) of
        RequestException \<Rightarrow>
          make_request_loop e url params headers max_retries rest (backoff max_retries attempt w1)
      | Responded r \<Rightarrow>
          if raises_for_status (status_code r) then
            (if status_code r < 500 then (Inl ConnectionError, w1)
             else make_request_loop e url params headers max_retries rest
                    (backoff max_retries attempt w1))
          else if not_an_image r then (Inl ValueError, w1)
          else (Inr r, w1))"

text \<open>\<open>range(n)\<close> accepts an \<open>int\<close> (a \<open>bool\<close> is one) and raises \<open>TypeError\<close> otherwise.\<close>

fun as_index :: "pyval \<Rightarrow> int option" where
  "as_index (PyInt n) = Some n"
| "as_index (PyBool b) = Some (if b then 1 else 0)"
| "as_index _ = None"

definition make_request ::
  "env \<Rightarrow> (string \<rightharpoonup> pyval) \<Rightarrow> string \<Rightarrow> pydict \<Rightarrow> pydict \<Rightarrow> world \<Rightarrow> (error + response) \<times> world"
where
  "make_request e cfg url params headers w =
     (case as_index (dict_get cfg ''max_retries'' (PyInt 3)) of
        None \<Rightarrow> (Inl TypeError, w)
      | Some max_retries \<Rightarrow>
          make_request_loop e url params headers max_retries [0..<nat max_retries] w)"

text \<open>An attempt that fails with a retryable error: a transport failure, or an
  \<open>HTTPError\<close> whose status is 500 or more.\<close>

fun retryable :: "outcome \<Rightarrow> bool" where
  "retryable RequestException = True"
| "retryable (Responded r) = (raises_for_status (status_code r) \<and> 500 \<le> status_code r)"

text \<open>The events of a run of failed attempts: each request, and the sleep after it
  unless it is the last attempt of the budget.\<close>

definition failed_attempts :: "string \<Rightarrow> pydict \<Rightarrow> pydict \<Rightarrow> int \<Rightarrow> nat list \<Rightarrow> event list" where
  "failed_attempts url params headers max_retries as =
     concat (map (\<lambda>a. Get url params headers #
                        (if int a < max_retries - 1 then [Sleep (2 ^ a)] else [])) as)"

section \<open>The cache key: \<open>ImageCache._get_hash\<close>\<close>

text \<open>\<open>str(i)\<close> for an integer: decimal digits, with a minus sign when negative.\<close>

fun decimal :: "nat \<Rightarrow> string" where
  "decimal n = (if n < 10 then [char_of (48 + n)] else decimal (n div 10) @ [char_of (48 + n mod 10)])"

definition str_int :: "int \<Rightarrow> string" where
  "str_int i = (if i < 0 then CHR ''-'' # decimal (nat (- i)) else decimal (nat i))"

definition hex_digit :: "nat \<Rightarrow> char" where
  "hex_digit n = (if n < 10 then char_of (48 + n) else char_of (87 + n))"

text \<open>
  \<open>json.dumps\<close> with its defaults (\<open>ensure_ascii\<close>, separators \<open>', '\<close> and \<open>': '\<close>):
  a string is quoted; the quote (34) and the backslash (92) are escaped, the control
  characters have their short escapes or \<open>\u00XX\<close>, and so has every character
  outside the printable ASCII range.
\<close>

definition json_escape :: "char \<Rightarrow> string" where
  "json_escape c =
     (let n = (of_char c :: nat); bs = char_of (92 :: nat) in
      if n = 34 then [bs, c]
      else if n = 92 then [bs, bs]
      else if n = 8 then [bs, CHR ''b'']
      else if n = 12 then [bs, CHR ''f'']
      else if n = 10 then [bs, CHR ''n'']
      else if n = 13 then [bs, CHR ''r'']
      else if n = 9 then [bs, CHR ''t'']
      else if 32 \<le> n \<and> n \<le> 126 then [c]
      else [bs, CHR ''u'', CHR ''0'', CHR ''0'', hex_digit (n div 16), hex_digit (n mod 16)])"

definition json_str :: "string \<Rightarrow> string" where
  "json_str s = char_of (34 :: nat) # concat (map json_escape s) @ [char_of (34 :: nat)]"

fun json_scalar :: "pyval \<Rightarrow> string" where
  "json_scalar PyNone = ''null''"
| "json_scalar (PyBool b) = (if b then ''true'' else ''false'')"
| "json_scalar (PyInt i) = str_int i"
| "json_scalar (PyStr s) = json_str s"

fun join :: "string \<Rightarrow> string list \<Rightarrow> string" where
  "join sep [] = []"
| "join sep [x] = x"
| "join sep (x # y # ys) = x @ sep @ join sep (y # ys)"

text \<open>\<open>json.dumps(parameters, sort_keys=True)\<close>: the items sorted by key (keys are
  distinct, so the values never decide), then written in that order.\<close>

definition json_dumps_sorted :: "pydict \<Rightarrow> string" where
  "json_dumps_sorted d =
     ''{'' @ join '', '' (map (\<lambda>(k, v). json_str k @ '': '' @ json_scalar v) (sort_key fst d)) @ ''}''"

text \<open>\<open>content = f"{prompt}_{json.dumps(parameters, sort_keys=True)}"\<close>, then the MD5
  hex digest of its encoding.\<close>

definition get_hash :: "env \<Rightarrow> string \<Rightarrow> pydict \<Rightarrow> string" where
  "get_hash e prompt parameters = md5_hex e (prompt @ ''_'' @ json_dumps_sorted parameters)"

section \<open>The cache: \<open>ImageCache\<close>\<close>

text \<open>The table \<open>image_cache\<close> is the list of its rows, \<open>prompt_hash\<close> being the
  primary key; \<open>last_accessed\<close> holds readings of \<open>CURRENT_TIMESTAMP\<close>.\<close>

record image_cache =
  max_age_days :: int

definition select_row :: "row list \<Rightarrow> string \<Rightarrow> row option" where
  "select_row t h = find (\<lambda>r. prompt_hash r = h) t"

definition delete_row :: "string \<Rightarrow> row list \<Rightarrow> row list" where
  "delete_row h t = filter (\<lambda>r. prompt_hash r \<noteq> h) t"

definition touch_row :: "string \<Rightarrow> int \<Rightarrow> row list \<Rightarrow> row list" where
  "touch_row h now t = map (\<lambda>r. if prompt_hash r = h then r\<lparr>last_accessed := now\<rparr> else r) t"

definition cache_get :: "env \<Rightarrow> string \<Rightarrow> pydict \<Rightarrow> world \<Rightarrow> string option \<times> world" where
  "cache_get e prompt parameters w =
     (let h = get_hash e prompt parameters in
      case select_row (db w) h of
        None \<Rightarrow> (None, w)
      | Some r \<Rightarrow>
          if filepath r \<in> files w
          then (Some (filepath r), w\<lparr>db := touch_row h (current_timestamp e (trace w)) (db w)\<rparr>)
          else (None, w))"

text \<open>\<open>INSERT OR REPLACE\<close>: the row with this key, if any, goes and the new row is added.\<close>

definition cache_store :: "env \<Rightarrow> string \<Rightarrow> pydict \<Rightarrow> string \<Rightarrow> world \<Rightarrow> world" where
  "cache_store e prompt parameters fp w =
     (let h = get_hash e prompt parameters in
      w\<lparr>db := delete_row h (db w) @
                [\<lparr>prompt_hash = h, filepath = fp,
                  last_accessed = current_timestamp e (trace w)\<rparr>]\<rparr>)"

text \<open>\<open>os.remove\<close> inside \<open>try ... except OSError\<close>: a failure is logged and the file stays.\<close>

definition os_remove :: "env \<Rightarrow> string \<Rightarrow> string set \<Rightarrow> string set" where
  "os_remove e p fs = (if removable e p then fs - {p} else fs)"

text \<open>First loop of \<open>clean_cache\<close>, over the rows selected as old: table, files, count.\<close>

fun sweep_old :: "env \<Rightarrow> row list \<Rightarrow> row list \<times> string set \<times> int \<Rightarrow> row list \<times> string set \<times> int" where
  "sweep_old e [] st = st"
| "sweep_old e (r # rs) (t, fs, n) =
     sweep_old e rs
       (delete_row (prompt_hash r) t,
        (if filepath r \<in> fs then os_remove e (filepath r) fs else fs),
        n + 1)"

text \<open>Second loop, over all rows left: those whose file does not exist are deleted.\<close>

fun sweep_missing :: "string set \<Rightarrow> row list \<Rightarrow> row list \<times> int \<Rightarrow> row list \<times> int" where
  "sweep_missing fs [] st = st"
| "sweep_missing fs (r # rs) (t, n) =
     sweep_missing fs rs
       (if filepath r \<notin> fs then (delete_row (prompt_hash r) t, n + 1) else (t, n))"

text \<open>
  \<open>clean_cache\<close> has no \<open>return\<close> statement: its result is \<open>None\<close>. The count goes to
  the log, in the message of completion when it is positive.
\<close>

datatype log_line = Cache_cleaned int | Nothing_to_clean

text \<open>\<open>cutoff_date = datetime.now() - timedelta(days=age_limit)\<close>, where \<open>age_limit\<close> is
  \<open>days if days > 0 else self.max_age_days\<close>: the local reading moved back by whole
  days, its microseconds kept.\<close>

definition cutoff_date :: "env \<Rightarrow> image_cache \<Rightarrow> int \<Rightarrow> world \<Rightarrow> int \<times> nat" where
  "cutoff_date e c days w =
     (let age_limit = (if days > 0 then days else max_age_days c);
          (seconds, microseconds) = datetime_now e (trace w)
      in (seconds - age_limit * 86400, microseconds))"

text \<open>
  \<open>WHERE last_accessed < ?\<close>: SQLite compares two texts. The stored one is
  \<open>YYYY-MM-DD HH:MM:SS\<close>. The parameter is the cutoff as \<open>sqlite3\<close> adapts a
  \<open>datetime\<close>: \<open>YYYY-MM-DD HH:MM:SS.ffffff\<close>, without the fraction when the microseconds
  are zero. The stored text is below the parameter when its date and time are
  earlier, or the same while the parameter goes on with a fraction.
\<close>

definition stamp_less :: "int \<Rightarrow> int \<times> nat \<Rightarrow> bool" where
  "stamp_less stored cutoff =
     (stored < fst cutoff \<or> (stored = fst cutoff \<and> snd cutoff \<noteq> 0))"

definition clean_cache ::
  "env \<Rightarrow> image_cache \<Rightarrow> int \<Rightarrow> world \<Rightarrow> (pyval \<times> log_line) \<times> world"
where
  "clean_cache e c days w =
     (let old = filter (\<lambda>r. stamp_less (last_accessed r) (cutoff_date e c days w)) (db w);
          (t1, fs1, n1) = sweep_old e old (db w, files w, 0);
          (t2, deleted_count) = sweep_missing fs1 t1 (t1, n1)
      in ((PyNone, if deleted_count > 0 then Cache_cleaned deleted_count else Nothing_to_clean),
          w\<lparr>db := t2, files := fs1\<rparr>))"

text \<open>\<open>ImageCache.__init__\<close> with its defaults: 30 days, and a sweep at start.\<close>

definition image_cache_init :: "env \<Rightarrow> world \<Rightarrow> image_cache \<times> world" where
  "image_cache_init e w =
     (let c = \<lparr>max_age_days = 30\<rparr> in (c, snd (clean_cache e c (max_age_days c) w)))"

section \<open>The image tool: \<open>ImageTool\<close>\<close>

record stats =
  images_generated :: int
  cache_hits :: int
  total_generation_time :: int
  errors :: int

record image_tool =
  config :: "string \<rightharpoonup> pyval"
  api_token :: pyval
  gofile_token :: pyval
  gofile_folder :: pyval
  cache :: "image_cache option"
  stats :: stats

definition image_tool_init :: "env \<Rightarrow> (string \<rightharpoonup> pyval) \<Rightarrow> world \<Rightarrow> image_tool \<times> world" where
  "image_tool_init e cfg w =
     (let (c, w1) = (if truthy (dict_get cfg ''enable_cache'' PyNone)
                     then (case image_cache_init e w of (c, w') \<Rightarrow> (Some c, w'))
                     else (None, w))
      in (\<lparr>config = cfg,
           api_token = dict_get cfg ''POLLINATIONS_API_KEY'' PyNone,
           gofile_token = dict_get cfg ''GOFILE_API_TOKEN'' PyNone,
           gofile_folder = dict_get cfg ''GOFILE_FOLDER_ID'' PyNone,
           cache = c,
           stats = \<lparr>images_generated = 0, cache_hits = 0, total_generation_time = 0, errors = 0\<rparr>\<rparr>,
          w1))"

definition BASE_URL :: string where
  "BASE_URL = ''https://image.pollinations.ai/prompt/''"

text \<open>The handlers \<open>except (ConnectionError, ValueError, IOError)\<close>.\<close>

fun caught :: "error \<Rightarrow> bool" where
  "caught ConnectionError = True"
| "caught ValueError = True"
| "caught IOError = True"
| "caught TypeError = False"
| "caught AttributeError = False"

subsection \<open>\<open>_translate_prompt\<close>\<close>

text \<open>The text is cut to 490 characters; the translation service is asked only when
  some character is outside ASCII, and its failure leaves the cut text.\<close>

definition translate_prompt :: "env \<Rightarrow> string \<Rightarrow> world \<Rightarrow> string \<times> world" where
  "translate_prompt e txt w =
     (let t = take 490 txt in
      if \<not> list_all (\<lambda>c. (of_char c :: nat) < 128) t then
        (case translator e t of
           Some translated \<Rightarrow> (translated, emit (Translate t) w)
         | None \<Rightarrow> (t, emit (Translate t) w))
      else (t, w))"

subsection \<open>\<open>quote_plus\<close>\<close>

definition percent :: "nat \<Rightarrow> string" where
  "percent n =
     [CHR ''%'',
      (if n div 16 < 10 then char_of (48 + n div 16) else char_of (55 + n div 16)),
      (if n mod 16 < 10 then char_of (48 + n mod 16) else char_of (55 + n mod 16))]"

definition ascii_alnum :: "nat \<Rightarrow> bool" where
  "ascii_alnum n = ((48 \<le> n \<and> n \<le> 57) \<or> (65 \<le> n \<and> n \<le> 90) \<or> (97 \<le> n \<and> n \<le> 122))"

text \<open>Letters, digits and \<open>_.-~\<close> stay, a space becomes \<open>+\<close>, every other character is
  the percent-encoding of its UTF-8 bytes.\<close>

definition quote_plus_char :: "char \<Rightarrow> string" where
  "quote_plus_char c =
     (let n = (of_char c :: nat) in
      if n = 32 then ''+''
      else if ascii_alnum n \<or> n = 95 \<or> n = 46 \<or> n = 45 \<or> n = 126 then [c]
      else if n < 128 then percent n
      else percent (192 + n div 64) @ percent (128 + n mod 64))"

definition quote_plus :: "string \<Rightarrow> string" where
  "quote_plus s = concat (map quote_plus_char s)"

subsection \<open>\<open>_generate_filename\<close>\<close>

text \<open>\<open>str.lower\<close>, the word characters of \<open>\w\<close> and the whitespace of \<open>\s\<close> and
  \<open>str.strip\<close>, on the code points below 256.\<close>

definition py_lower :: "char \<Rightarrow> char" where
  "py_lower c =
     (let n = (of_char c :: nat) in
      if (65 \<le> n \<and> n \<le> 90) \<or> (192 \<le> n \<and> n \<le> 222 \<and> n \<noteq> 215) then char_of (n + 32) else c)"

definition is_word :: "char \<Rightarrow> bool" where
  "is_word c =
     (let n = (of_char c :: nat) in
      ascii_alnum n \<or> n = 95 \<or> n = 170 \<or> n = 178 \<or> n = 179 \<or> n = 181 \<or> n = 185 \<or> n = 186
      \<or> (188 \<le> n \<and> n \<le> 190) \<or> (192 \<le> n \<and> n \<le> 255 \<and> n \<noteq> 215 \<and> n \<noteq> 247))"

definition is_space :: "char \<Rightarrow> bool" where
  "is_space c =
     (let n = (of_char c :: nat) in
      (9 \<le> n \<and> n \<le> 13) \<or> (28 \<le> n \<and> n \<le> 32) \<or> n = 133 \<or> n = 160)"

definition strip :: "string \<Rightarrow> string" where
  "strip s = rev (dropWhile is_space (rev (dropWhile is_space s)))"

text \<open>\<open>re.sub(r'[^\w\s-]', '', prompt.lower()).strip().replace(' ', '_')[:50]\<close>.\<close>

definition clean_prompt :: "string \<Rightarrow> string" where
  "clean_prompt prompt =
     take 50
       (map (\<lambda>c. if c = CHR '' '' then CHR ''_'' else c)
          (strip (filter (\<lambda>c. is_word c \<or> is_space c \<or> c = CHR ''-'') (map py_lower prompt))))"

text \<open>The extension is \<open>config.get('image_format', 'png').lower()\<close>; a value that is
  no string has no \<open>lower\<close>, an error that nothing catches.\<close>

definition generate_filename :: "env \<Rightarrow> (string \<rightharpoonup> pyval) \<Rightarrow> string \<Rightarrow> world \<Rightarrow> error + string" where
  "generate_filename e cfg prompt w =
     (case dict_get cfg ''image_format'' (PyStr ''png'') of
        PyStr fmt \<Rightarrow>
          Inr (clean_prompt prompt @ ''_'' @ strftime e (fst (datetime_now e (trace w))) @ ''.''
                 @ map py_lower fmt)
      | _ \<Rightarrow> Inl AttributeError)"

subsection \<open>\<open>_save_image\<close>\<close>

text \<open>The path is \<open>Path(output_dir) / filename\<close> (\<open>Path\<close> raises \<open>TypeError\<close> on a value
  that is no string); an \<open>IOError\<close> is logged and raised again.\<close>

definition save_image :: "env \<Rightarrow> (string \<rightharpoonup> pyval) \<Rightarrow> string \<Rightarrow> world \<Rightarrow> (error + string) \<times> world" where
  "save_image e cfg filename w =
     (case dict_get cfg ''output_dir'' (PyStr ''generated_images'') of
        PyStr output_dir \<Rightarrow>
          (let output_path = path_join e output_dir filename in
           case disk e output_path of
             Saved \<Rightarrow> (Inr output_path, w\<lparr>files := insert output_path (files w)\<rparr>)
           | Open_failed \<Rightarrow> (Inl IOError, w)
           | Write_failed \<Rightarrow> (Inl IOError, w\<lparr>files := insert output_path (files w)\<rparr>))
      | _ \<Rightarrow> (Inl TypeError, w))"

subsection \<open>\<open>_upload_to_gofile\<close>\<close>

text \<open>Without credentials nothing is sent; otherwise every failure of the two-step
  upload is caught and gives \<open>None\<close>.\<close>

definition upload_to_gofile :: "env \<Rightarrow> image_tool \<Rightarrow> string \<Rightarrow> world \<Rightarrow> string option \<times> world" where
  "upload_to_gofile e tool image_path w =
     (if \<not> truthy (gofile_token tool) \<or> \<not> truthy (gofile_folder tool) then (None, w)
      else (gofile e image_path, emit (Upload image_path) w))"

subsection \<open>Request parameters and headers\<close>

text \<open>\<open>random.randint(a, b)\<close> returns an integer \<open>N\<close> with \<open>a \<le> N \<le> b\<close>: both ends
  are included. It is \<open>a\<close> plus a number below \<open>b - a + 1\<close>, here taken from the next
  value of the generator. (The program calls it with \<open>a \<le> b\<close> only.)\<close>

definition randint :: "env \<Rightarrow> int \<Rightarrow> int \<Rightarrow> world \<Rightarrow> int \<times> world" where
  "randint e a b w = (a + int (rng e (draws w) mod nat (b - a + 1)), w\<lparr>draws := Suc (draws w)\<rparr>)"

text \<open>\<open>str(v)\<close>, as an f-string formats a value.\<close>

fun py_str :: "pyval \<Rightarrow> string" where
  "py_str PyNone = ''None''"
| "py_str (PyBool b) = (if b then ''True'' else ''False'')"
| "py_str (PyInt i) = str_int i"
| "py_str (PyStr s) = s"

definition auth_headers :: "image_tool \<Rightarrow> pydict" where
  "auth_headers tool =
     (if truthy (api_token tool)
      then [(''Authorization'', PyStr (''Bearer '' @ py_str (api_token tool)))] else [])"

text \<open>The dictionary \<open>params\<close> of \<open>generate_image\<close>. The default of
  \<open>kwargs.get('seed', random.randint(0, 1_000_000_000))\<close> is computed before the lookup,
  so a seed is drawn on every call.\<close>

definition generate_params :: "env \<Rightarrow> image_tool \<Rightarrow> (string \<rightharpoonup> pyval) \<Rightarrow> world \<Rightarrow> pydict \<times> world" where
  "generate_params e tool kwargs w =
     (let (drawn, w') = randint e 0 1000000000 w in
      ([(''width'', dict_get kwargs ''width'' (dict_get (config tool) ''width'' PyNone)),
        (''height'', dict_get kwargs ''height'' (dict_get (config tool) ''height'' PyNone)),
        (''model'', dict_get kwargs ''model'' (dict_get (config tool) ''model'' PyNone)),
        (''seed'', dict_get kwargs ''seed'' (PyInt drawn)),
        (''nologo'', PyBool (\<not> truthy (dict_get (config tool) ''add_logo'' (PyBool True))))],
       w'))"

text \<open>The dictionary \<open>params\<close> of one attempt of \<open>edit_image\<close>.\<close>

definition edit_params ::
  "env \<Rightarrow> image_tool \<Rightarrow> (string \<rightharpoonup> pyval) \<Rightarrow> string \<Rightarrow> string \<Rightarrow> string \<Rightarrow> world \<Rightarrow> pydict \<times> world"
where
  "edit_params e tool kwargs model param public_url w =
     (let (drawn, w') = randint e 0 1000000000 w in
      ([(''model'', PyStr model),
        (param, PyStr public_url),
        (''seed'', dict_get kwargs ''seed'' (PyInt drawn)),
        (''width'', dict_get kwargs ''width'' (dict_get (config tool) ''width'' PyNone)),
        (''height'', dict_get kwargs ''height'' (dict_get (config tool) ''height'' PyNone)),
        (''nologo'', PyBool (\<not> truthy (dict_get (config tool) ''add_logo'' (PyBool True))))],
       w'))"

subsection \<open>\<open>generate_image\<close>\<close>

definition bump_errors :: "image_tool \<Rightarrow> image_tool" where
  "bump_errors tool = tool\<lparr>stats := (stats tool)\<lparr>errors := errors (stats tool) + 1\<rparr>\<rparr>"

text \<open>An exception inside the \<open>try\<close> of \<open>generate_image\<close>: one of the three caught
  classes is counted and gives \<open>None\<close>; any other leaves the function.\<close>

definition generate_failed ::
  "error \<Rightarrow> image_tool \<Rightarrow> world \<Rightarrow> (error + string option) \<times> image_tool \<times> world" where
  "generate_failed err tool w =
     (if caught err then (Inr None, bump_errors tool, w) else (Inl err, tool, w))"

text \<open>The part of \<open>generate_image\<close> after a cache miss.\<close>

definition generate_fresh ::
  "env \<Rightarrow> image_tool \<Rightarrow> string \<Rightarrow> pydict \<Rightarrow> int \<Rightarrow> world \<Rightarrow> (error + string option) \<times> image_tool \<times> world"
where
  "generate_fresh e tool prompt params start_time w =
     (let (translated_prompt, w2) = translate_prompt e prompt w;
          url = BASE_URL @ quote_plus translated_prompt;
          headers = auth_headers tool
      in case make_request e (config tool) url params headers w2 of
           (Inl err, w3) \<Rightarrow> generate_failed err tool w3
         | (Inr resp, w3) \<Rightarrow>
             (case generate_filename e (config tool) translated_prompt w3 of
                Inl err \<Rightarrow> generate_failed err tool w3
              | Inr filename \<Rightarrow>
                  (case save_image e (config tool) filename w3 of
                     (Inl err, w4) \<Rightarrow> generate_failed err tool w4
                   | (Inr saved_path, w4) \<Rightarrow>
                       if saved_path \<noteq> [] then
                         (let w5 = (case cache tool of
                                      None \<Rightarrow> w4
                                    | Some c \<Rightarrow> cache_store e prompt params saved_path w4);
                              duration = time_time e (trace w5) - start_time
                          in (Inr (Some saved_path),
                              tool\<lparr>stats := (stats tool)
                                     \<lparr>images_generated := images_generated (stats tool) + 1,
                                      total_generation_time :=
                                        total_generation_time (stats tool) + duration\<rparr>\<rparr>,
                              w5))
                       else (Inr None, tool, w4))))"

text \<open>
  \<open>generate_image\<close>: the result is \<open>Inr (Some path)\<close>, \<open>Inr None\<close>, or \<open>Inl\<close> an
  exception that no handler caught. The cache is asked with the prompt as given; a
  cached path counts as a hit when it is a non-empty string.
\<close>

definition generate_image ::
  "env \<Rightarrow> image_tool \<Rightarrow> string \<Rightarrow> (string \<rightharpoonup> pyval) \<Rightarrow> world \<Rightarrow> (error + string option) \<times> image_tool \<times> world"
where
  "generate_image e tool prompt kwargs w =
     (let start_time = time_time e (trace w);
          (params, w0) = generate_params e tool kwargs w;
          (cached_path, w1) = (case cache tool of
                                 None \<Rightarrow> (None, w0)
                               | Some c \<Rightarrow> cache_get e prompt params w0)
      in case cached_path of
           Some p \<Rightarrow>
             if p \<noteq> [] then
               (Inr (Some p),
                tool\<lparr>stats := (stats tool)\<lparr>cache_hits := cache_hits (stats tool) + 1\<rparr>\<rparr>,
                w1)
             else generate_fresh e tool prompt params start_time w1
         | None \<Rightarrow> generate_fresh e tool prompt params start_time w1)"

text \<open>A sequence of calls of \<open>generate_image\<close> on one tool; a caller that meets an
  exception goes on with the next call.\<close>

fun generate_calls ::
  "env \<Rightarrow> (string \<times> (string \<rightharpoonup> pyval)) list \<Rightarrow> image_tool \<Rightarrow> world \<Rightarrow> image_tool \<times> world" where
  "generate_calls e [] tool w = (tool, w)"
| "generate_calls e ((prompt, kwargs) # calls) tool w =
     (case generate_image e tool prompt kwargs w of
        (res, tool', w') \<Rightarrow> generate_calls e calls tool' w')"

subsection \<open>\<open>edit_image\<close>\<close>

text \<open>The dictionary \<open>model_params\<close>, in its order: model, name of the parameter that
  carries the image, prefix of the prompt.\<close>

definition model_params :: "(string \<times> string \<times> string) list" where
  "model_params =
     [(''kontext'', ''image'', []),
      (''flux'', ''reference'', ''based on reference image, ''),
      (''flux-kontext'', ''image'', [])]"

text \<open>\<open>methods_to_try = [preferred_model] + [m for m in model_params if m != preferred_model]\<close>.\<close>

definition methods_to_try :: "pyval \<Rightarrow> pyval list" where
  "methods_to_try preferred_model =
     preferred_model # filter (\<lambda>m. m \<noteq> preferred_model) (map (\<lambda>(m, p). PyStr m) model_params)"

text \<open>The loop that builds \<open>methods\<close>: a name is kept \<open>if model_name in model_params\<close>.\<close>

fun known_model :: "pyval \<Rightarrow> (string \<times> string \<times> string) option" where
  "known_model (PyStr m) = map_option (\<lambda>p. (m, p)) (map_of model_params m)"
| "known_model _ = None"

definition edit_methods :: "pyval \<Rightarrow> (string \<times> string \<times> string) list" where
  "edit_methods preferred_model = List.map_filter known_model (methods_to_try preferred_model)"

text \<open>One turn of \<open>for method in methods\<close>, up to the \<open>return\<close> or the exception.\<close>

definition edit_attempt ::
  "env \<Rightarrow> image_tool \<Rightarrow> string \<Rightarrow> string \<Rightarrow> (string \<rightharpoonup> pyval) \<Rightarrow> string \<times> string \<times> string
     \<Rightarrow> world \<Rightarrow> (error + string) \<times> world"
where
  "edit_attempt e tool translated_prompt public_url kwargs m w =
     (case m of (model, param, prompt_prefix) \<Rightarrow>
        (let w0 = emit (Edit_attempt model) w;
             final_prompt = prompt_prefix @ translated_prompt;
             url = BASE_URL @ quote_plus final_prompt;
             (params, w1) = edit_params e tool kwargs model param public_url w0;
             headers = auth_headers tool
         in case make_request e (config tool) url params headers w1 of
              (Inl err, w2) \<Rightarrow> (Inl err, w2)
            | (Inr resp, w2) \<Rightarrow>
                (case generate_filename e (config tool)
                        (''edit_'' @ model @ ''_'' @ translated_prompt) w2 of
                   Inl err \<Rightarrow> (Inl err, w2)
                 | Inr filename \<Rightarrow> save_image e (config tool) filename w2)))"

fun edit_loop ::
  "env \<Rightarrow> image_tool \<Rightarrow> string \<Rightarrow> string \<Rightarrow> (string \<rightharpoonup> pyval) \<Rightarrow> (string \<times> string \<times> string) list
     \<Rightarrow> world \<Rightarrow> (error + string option) \<times> world"
where
  "edit_loop e tool translated_prompt public_url kwargs [] w = (Inr None, w)"
| "edit_loop e tool translated_prompt public_url kwargs (m # ms) w =
     (case edit_attempt e tool translated_prompt public_url kwargs m w of
        (Inr saved_path, w') \<Rightarrow> (Inr (Some saved_path), w')
      | (Inl err, w') \<Rightarrow>
          if caught err then edit_loop e tool translated_prompt public_url kwargs ms w'
          else (Inl err, w'))"

text \<open>\<open>preferred_model = self.config_manager.get('model_edicion', 'kontext')\<close>.\<close>

definition preferred_model :: "image_tool \<Rightarrow> pyval" where
  "preferred_model tool = dict_get (config tool) ''model_edicion'' (PyStr ''kontext'')"

definition edit_image ::
  "env \<Rightarrow> image_tool \<Rightarrow> string \<Rightarrow> string \<Rightarrow> (string \<rightharpoonup> pyval) \<Rightarrow> world
     \<Rightarrow> (error + string option) \<times> image_tool \<times> world"
where
  "edit_image e tool prompt image_path kwargs w =
     (if image_path \<notin> files w then (Inr None, tool, w)
      else case upload_to_gofile e tool image_path w of
        (None, w1) \<Rightarrow> (Inr None, tool, w1)
      | (Some public_url, w1) \<Rightarrow>
          if public_url = [] then (Inr None, tool, w1)
          else
            (let (translated_prompt, w2) = translate_prompt e prompt w1
             in case edit_loop e tool translated_prompt public_url kwargs
                       (edit_methods (preferred_model tool)) w2 of
                  (Inr (Some saved_path), w3) \<Rightarrow> (Inr (Some saved_path), tool, w3)
                | (Inr None, w3) \<Rightarrow> (Inr None, bump_errors tool, w3)
                | (Inl err, w3) \<Rightarrow> (Inl err, tool, w3)))"

text \<open>The models that the attempts of a trace name, in order.\<close>

fun attempts :: "event list \<Rightarrow> string list" where
  "attempts [] = []"
| "attempts (Edit_attempt m # tr) = m # attempts tr"
| "attempts (_ # tr) = attempts tr"

text \<open>The world that the given attempts leave, made one after the other whatever their
  outcomes.\<close>

fun after_attempts ::
  "env \<Rightarrow> image_tool \<Rightarrow> string \<Rightarrow> string \<Rightarrow> (string \<rightharpoonup> pyval) \<Rightarrow> (string \<times> string \<times> string) list
     \<Rightarrow> world \<Rightarrow> world"
where
  "after_attempts e tool translated_prompt public_url kwargs [] w = w"
| "after_attempts e tool translated_prompt public_url kwargs (m # ms) w =
     after_attempts e tool translated_prompt public_url kwargs ms
       (snd (edit_attempt e tool translated_prompt public_url kwargs m w))"

text \<open>The outcome of attempt \<open>j\<close> of a chain (counting from 0), made in the world that
  the attempts before it left.\<close>

definition nth_attempt ::
  "env \<Rightarrow> image_tool \<Rightarrow> string \<Rightarrow> string \<Rightarrow> (string \<rightharpoonup> pyval) \<Rightarrow> (string \<times> string \<times> string) list
     \<Rightarrow> world \<Rightarrow> nat \<Rightarrow> error + string"
where
  "nth_attempt e tool translated_prompt public_url kwargs ms w j =
     fst (edit_attempt e tool translated_prompt public_url kwargs (ms ! j)
            (after_attempts e tool translated_prompt public_url kwargs (take j ms) w))"

text \<open>An attempt fails when it raises one of the exceptions that the loop catches.\<close>

fun attempt_fails :: "error + string \<Rightarrow> bool" where
  "attempt_fails (Inl err) = caught err"
| "attempt_fails (Inr saved_path) = False"

text \<open>What comes before the loop in \<open>edit_image\<close>: the image must exist and its upload
  must give a link; then the prompt is translated. The result is the link, the
  translated prompt and the world in which the first attempt is made, or \<open>None\<close> when
  \<open>edit_image\<close> gives up before any attempt.\<close>

definition edit_start ::
  "env \<Rightarrow> image_tool \<Rightarrow> string \<Rightarrow> string \<Rightarrow> world \<Rightarrow> (string \<times> string \<times> world) option"
where
  "edit_start e tool prompt image_path w =
     (if image_path \<notin> files w then None
      else case upload_to_gofile e tool image_path w of
        (None, w1) \<Rightarrow> None
      | (Some public_url, w1) \<Rightarrow>
          if public_url = [] then None
          else (case translate_prompt e prompt w1 of
                  (translated_prompt, w2) \<Rightarrow> Some (public_url, translated_prompt, w2)))"

text \<open>A character that \<open>_generate_filename\<close> leaves as it is: lower case already, kept
  by the substitution, and no whitespace.\<close>

definition slug_stable :: "char \<Rightarrow> bool" where
  "slug_stable c = (py_lower c = c \<and> (is_word c \<or> c = CHR ''-'') \<and> \<not> is_space c)"

section \<open>A test double for the outside world\<close>

text \<open>A small environment for concrete runs: the digest is the identity, the image
  API answers from the given script, the translation service is down, every upload
  gives the same link, every random draw is \<open>r\<close>, the disk accepts every file, the
  clocks stand still and the local time is UTC.\<close>

definition stub_env :: "(nat \<Rightarrow> outcome) \<Rightarrow> nat \<Rightarrow> env" where
  "stub_env h r =
     \<lparr>md5_hex = (\<lambda>s. s),
      http = h,
      translator = (\<lambda>s. None),
      gofile = (\<lambda>p. Some ''https://host/d/1/in.png''),
      rng = (\<lambda>k. r),
      disk = (\<lambda>p. Saved),
      removable = (\<lambda>p. True),
      time_time = (\<lambda>tr. 10000000),
      current_timestamp = (\<lambda>tr. 10000000),
      datetime_now = (\<lambda>tr. (10000000, 0)),
      strftime = (\<lambda>t. ''20240101_120000''),
      path_join = (\<lambda>d f. d @ ''/'' @ f)\<rparr>"

definition http_response :: "int \<Rightarrow> string \<Rightarrow> outcome" where
  "http_response s ct = Responded \<lparr>status_code = s, content_type = Some ct\<rparr>"

definition empty_world :: world where
  "empty_world = \<lparr>trace = [], files = {}, db = [], draws = 0\<rparr>"

definition default_config :: "string \<rightharpoonup> pyval" where
  "default_config =
     [''width'' \<mapsto> PyInt 1024, ''height'' \<mapsto> PyInt 768, ''model'' \<mapsto> PyStr ''flux'',
      ''max_retries'' \<mapsto> PyInt 3, ''timeout'' \<mapsto> PyInt 120,
      ''output_dir'' \<mapsto> PyStr ''./generated_images'', ''image_format'' \<mapsto> PyStr ''PNG'',
      ''enable_cache'' \<mapsto> PyBool True, ''batch_size'' \<mapsto> PyInt 5,
      ''model_edicion'' \<mapsto> PyStr ''kontext'']"

definition stub_tool :: image_tool where
  "stub_tool =
     \<lparr>config = default_config,
      api_token = PyNone,
      gofile_token = PyStr ''token'',
      gofile_folder = PyStr ''folder'',
      cache = Some \<lparr>max_age_days = 30\<rparr>,
      stats = \<lparr>images_generated = 0, cache_hits = 0, total_generation_time = 0, errors = 0\<rparr>\<rparr>"


text \<open>A world where the image to edit exists, and the answers of the image API when
  the first request meets a 404 and the second an image.\<close>

definition edit_world :: world where
  "edit_world = \<lparr>trace = [], files = {''in.png''}, db = [], draws = 0\<rparr>"

definition second_succeeds :: "nat \<Rightarrow> outcome" where
  "second_succeeds n =
     (if n = 0 then http_response 404 ''text/html'' else http_response 200 ''image/png'')"

text \<open>A tool whose configuration prefers a model that \<open>model_params\<close> does not have.\<close>

definition turbo_tool :: image_tool where
  "turbo_tool = stub_tool\<lparr>config := default_config(''model_edicion'' \<mapsto> PyStr ''turbo'')\<rparr>"




section \<open>Properties of the retry client\<close>

lemma num_gets_append: "num_gets (xs @ ys) = num_gets xs + num_gets ys"
  by (simp add: num_gets_def)

lemma num_gets_single [simp]: "num_gets [Get url params headers] = 1"
  by (simp add: num_gets_def)

lemma num_gets_failed_attempts:
  "num_gets (failed_attempts url params headers m as) = length as"
  by (induction as) (simp_all add: failed_attempts_def num_gets_def)

lemma sleeps_append: "sleeps (xs @ ys) = sleeps xs @ sleeps ys"
  by (induction xs rule: sleeps.induct) simp_all

lemma sleeps_failed_attempts:
  "sleeps (failed_attempts url params headers m as) =
     map (\<lambda>a. 2 ^ a) (filter (\<lambda>a. int a < m - 1) as)"
  by (induction as) (simp_all add: failed_attempts_def)

lemma failed_attempts_Cons:
  "failed_attempts url params headers m (a # as) =
     Get url params headers # (if int a < m - 1 then [Sleep (2 ^ a)] else [])
       @ failed_attempts url params headers m as"
  by (simp add: failed_attempts_def)

lemma trace_backoff_emit:
  "trace (backoff m a (emit (Get url params headers) w)) =
     trace w @ Get url params headers # (if int a < m - 1 then [Sleep (2 ^ a)] else [])"
  by (simp add: backoff_def emit_def)

lemma backoff_emit_eq:
  "backoff m a (emit (Get url params headers) w) =
     w\<lparr>trace := trace w @ Get url params headers # (if int a < m - 1 then [Sleep (2 ^ a)] else [])\<rparr>"
  by (simp add: backoff_def emit_def)

text \<open>While the attempts fail with retryable errors, the loop moves on, leaving the
  request and the sleep of each in the trace.\<close>

lemma make_request_loop_failed_prefix:
  assumes "\<forall>j<length pre. retryable (http e (num_gets (trace w) + j))"
  shows "make_request_loop e url params headers m (pre @ rest) w =
           make_request_loop e url params headers m rest
             (w\<lparr>trace := trace w @ failed_attempts url params headers m pre\<rparr>)"
  using assms
proof (induction pre arbitrary: w)
  case Nil
  show ?case by (simp add: failed_attempts_def)
next
  case (Cons a pre)
  let ?w' = "backoff m a (emit (Get url params headers) w)"
  have first: "retryable (http e (num_gets (trace w)))"
    using Cons.prems by auto
  have step: "make_request_loop e url params headers m ((a # pre) @ rest) w =
                make_request_loop e url params headers m (pre @ rest) ?w'"
    using first by (cases "http e (num_gets (trace w))") (auto simp: Let_def)
  have gets: "num_gets (trace ?w') = Suc (num_gets (trace w))"
    by (simp add: trace_backoff_emit num_gets_def)
  have later: "\<forall>j<length pre. retryable (http e (num_gets (trace ?w') + j))"
    using Cons.prems by (auto simp: gets)
  have "make_request_loop e url params headers m (pre @ rest) ?w' =
          make_request_loop e url params headers m rest
            (?w'\<lparr>trace := trace ?w' @ failed_attempts url params headers m pre\<rparr>)"
    by (rule Cons.IH [OF later])
  moreover have "?w'\<lparr>trace := trace ?w' @ failed_attempts url params headers m pre\<rparr> =
                   w\<lparr>trace := trace w @ failed_attempts url params headers m (a # pre)\<rparr>"
    by (simp add: backoff_emit_eq failed_attempts_Cons)
  ultimately show ?case using step by simp
qed



lemma filter_budget_upt_below:
  assumes "i < nat m"
  shows "filter (\<lambda>a. int a < m - 1) [0..<i] = [0..<i]"
  using assms by (auto simp: filter_id_conv)

lemma upt_split_at: "i < n \<Longrightarrow> [0..<n] = [0..<i] @ i # [Suc i..<n]"
  by (metis upt_add_eq_append upt_conv_Cons le0 less_imp_le_nat le_add_diff_inverse)

text \<open>If the first \<open>i\<close> attempts fail with retryable errors and the budget is larger,
  the client reaches attempt \<open>i\<close>, having slept after each failure.\<close>

lemma make_request_reaches:
  assumes cfg: "dict_get cfg ''max_retries'' (PyInt 3) = PyInt m"
    and i: "i < nat m"
    and before: "\<forall>j<i. retryable (http e (num_gets (trace w) + j))"
  shows "make_request e cfg url params headers w =
           make_request_loop e url params headers m (i # [Suc i..<nat m])
             (w\<lparr>trace := trace w @ failed_attempts url params headers m [0..<i]\<rparr>)"
proof -
  have "make_request e cfg url params headers w =
          make_request_loop e url params headers m ([0..<i] @ i # [Suc i..<nat m]) w"
    using cfg upt_split_at [OF i] by (simp add: make_request_def)
  also have "\<dots> = make_request_loop e url params headers m (i # [Suc i..<nat m])
             (w\<lparr>trace := trace w @ failed_attempts url params headers m [0..<i]\<rparr>)"
    by (rule make_request_loop_failed_prefix) (simp add: before)
  finally show ?thesis .
qed

text \<open>A response that is no retryable failure ends the loop on its own attempt: the
  request is the last event, and no sleep follows it.\<close>

lemma make_request_loop_ends:
  assumes "http e (num_gets (trace w)) = Responded r"
    and "\<not> retryable (Responded r)"
  shows "make_request_loop e url params headers m (a # rest) w =
           (if raises_for_status (status_code r) then Inl ConnectionError
            else if not_an_image r then Inl ValueError else Inr r,
            emit (Get url params headers) w)"
  using assms by (auto simp: Let_def)

lemma make_request_ends_at:
  assumes cfg: "dict_get cfg ''max_retries'' (PyInt 3) = PyInt m"
    and i: "i < nat m"
    and before: "\<forall>j<i. retryable (http e (num_gets (trace w) + j))"
    and at: "http e (num_gets (trace w) + i) = Responded r"
    and final: "\<not> retryable (Responded r)"
  shows "make_request e cfg url params headers w =
           (if raises_for_status (status_code r) then Inl ConnectionError
            else if not_an_image r then Inl ValueError else Inr r,
            w\<lparr>trace := trace w @ failed_attempts url params headers m [0..<i]
                            @ [Get url params headers]\<rparr>)"
proof -
  let ?w = "w\<lparr>trace := trace w @ failed_attempts url params headers m [0..<i]\<rparr>"
  have gets: "num_gets (trace ?w) = num_gets (trace w) + i"
    by (simp add: num_gets_append num_gets_failed_attempts)
  have "make_request e cfg url params headers w =
          make_request_loop e url params headers m (i # [Suc i..<nat m]) ?w"
    by (rule make_request_reaches [OF cfg i before])
  also have "\<dots> = (if raises_for_status (status_code r) then Inl ConnectionError
            else if not_an_image r then Inl ValueError else Inr r,
            emit (Get url params headers) ?w)"
    by (rule make_request_loop_ends [OF _ final])
       (simp add: num_gets_append num_gets_failed_attempts at)
  finally show ?thesis by (simp add: emit_def)
qed

lemma make_request_loop_returns_images:
  "fst (make_request_loop e url params headers m as w) = Inr r \<Longrightarrow> \<not> not_an_image r"
proof (induction as arbitrary: w)
  case Nil
  then show ?case by simp
next
  case (Cons a as)
  then show ?case
    by (cases "http e (num_gets (trace w))") (auto simp: Let_def split: if_splits)
qed

text \<open>Whatever the server answers, a response that \<open>_make_request\<close> returns declares
  an image or an octet stream.\<close>

lemma make_request_returns_images:
  "fst (make_request e cfg url params headers w) = Inr r \<Longrightarrow> \<not> not_an_image r"
  by (auto simp: make_request_def dest: make_request_loop_returns_images split: option.splits)

lemma sleeps_failed_below:
  assumes "i < nat m"
  shows "sleeps (failed_attempts url params headers m [0..<i]) = map (\<lambda>a. 2 ^ a) [0..<i]"
  by (simp add: sleeps_failed_attempts filter_budget_upt_below [OF assms])



text \<open>
  Claim C4, as the code has it. If the client reaches an attempt whose response is not
  2xx and has a status below 500 (404, say, on the first attempt), that request is the
  last one: the trace ends with it, no sleep follows, and the attempts left in the
  budget are not made. With a status from 400 on, \<open>raise_for_status\<close> raises, the loop
  is left by \<open>break\<close> and the client fails with \<open>ConnectionError\<close>. (Below 400 no
  \<open>HTTPError\<close> is raised: the response goes to the content-type check, which returns it
  or raises at once.)
\<close>

theorem client_error_short_circuit:
  assumes cfg: "dict_get cfg ''max_retries'' (PyInt 3) = PyInt m"
    and i: "i < nat m"
    and before: "\<forall>j<i. retryable (http e (num_gets (trace w) + j))"
    and at: "http e (num_gets (trace w) + i) = Responded r"
    and status: "status_code r < 500"
    and non2xx: "\<not> (200 \<le> status_code r \<and> status_code r < 300)"
  shows "trace (snd (make_request e cfg url params headers w)) =
           trace w @ failed_attempts url params headers m [0..<i] @ [Get url params headers]
         \<and> num_gets (trace (snd (make_request e cfg url params headers w))) =
             num_gets (trace w) + i + 1
         \<and> sleeps (trace (snd (make_request e cfg url params headers w))) =
             sleeps (trace w) @ map (\<lambda>a. 2 ^ a) [0..<i]
         \<and> (400 \<le> status_code r \<longrightarrow>
              fst (make_request e cfg url params headers w) = Inl ConnectionError)"
proof -
  have final: "\<not> retryable (Responded r)"
    using status by simp
  show ?thesis
    unfolding make_request_ends_at [OF cfg i before at final]
    using status
    by (simp add: num_gets_append num_gets_failed_attempts sleeps_append
                  sleeps_failed_below [OF i] raises_for_status_def)
qed

theorem client_error_short_circuit_witness:
  "trace (snd (make_request (stub_env (\<lambda>n. http_response 404 ''text/html'') 0) default_config
       ''u'' [] [] empty_world)) = [Get ''u'' [] []]
   \<and> num_gets (trace (snd (make_request (stub_env (\<lambda>n. http_response 404 ''text/html'') 0)
         default_config ''u'' [] [] empty_world))) = 1
   \<and> sleeps (trace (snd (make_request (stub_env (\<lambda>n. http_response 404 ''text/html'') 0)
         default_config ''u'' [] [] empty_world))) = []
   \<and> fst (make_request (stub_env (\<lambda>n. http_response 404 ''text/html'') 0) default_config
       ''u'' [] [] empty_world) = Inl ConnectionError"
proof -
  let ?e = "stub_env (\<lambda>n. http_response 404 ''text/html'') 0"
  let ?r = "\<lparr>status_code = 404, content_type = Some ''text/html''\<rparr>"
  have cfg: "dict_get default_config ''max_retries'' (PyInt 3) = PyInt 3"
    by (simp add: dict_get_def default_config_def)
  have i: "0 < nat 3" by simp
  have before: "\<forall>j<(0::nat). retryable (http ?e (num_gets (trace empty_world) + j))"
    by simp
  have at: "http ?e (num_gets (trace empty_world) + 0) = Responded ?r"
    by (simp add: stub_env_def http_response_def)
  have status: "status_code ?r < 500" by simp
  have non2xx: "\<not> (200 \<le> status_code ?r \<and> status_code ?r < 300)" by simp
  show ?thesis
    using client_error_short_circuit [OF cfg i before at status non2xx, of "''u''" "[]" "[]"]
    by (simp add: failed_attempts_def empty_world_def num_gets_def)
qed

text \<open>A response that is not 2xx and below 500 need not abort the fetch: a 304 that
  declares an image is no \<open>HTTPError\<close> for \<open>raise_for_status\<close>, passes the content-type
  check and is returned as the result.\<close>

theorem not_modified_returned_counterexample:
  "fst (make_request (stub_env (\<lambda>n. http_response 304 ''image/png'') 0) default_config
          ''u'' [] [] empty_world) =
     Inr \<lparr>status_code = 304, content_type = Some ''image/png''\<rparr>
   \<and> \<not> (200 \<le> (304 :: int) \<and> (304 :: int) < 300) \<and> (304 :: int) < 500"
proof -
  have three: "[0..<3] = [0, 1, 2]"
    by code_simp
  show ?thesis
    by (simp add: make_request_def dict_get_def default_config_def three stub_env_def
          http_response_def empty_world_def num_gets_def raises_for_status_def not_an_image_def
          sublist_code(3) Let_def)
qed

text \<open>
  Claim C5. A 2xx response whose content type holds neither \<open>image\<close> nor
  \<open>octet-stream\<close> makes \<open>_make_request\<close> raise \<open>ValueError\<close>, a class other than the
  \<open>ConnectionError\<close> of transport failures; it is not returned as a result.
\<close>

theorem content_type_guard:
  assumes cfg: "dict_get cfg ''max_retries'' (PyInt 3) = PyInt m"
    and i: "i < nat m"
    and before: "\<forall>j<i. retryable (http e (num_gets (trace w) + j))"
    and at: "http e (num_gets (trace w) + i) = Responded r"
    and ok: "200 \<le> status_code r" "status_code r < 300"
    and bad: "not_an_image r"
  shows "fst (make_request e cfg url params headers w) = Inl ValueError
         \<and> ValueError \<noteq> ConnectionError
         \<and> (\<forall>r'. fst (make_request e cfg url params headers w) \<noteq> Inr r')"
proof -
  have final: "\<not> retryable (Responded r)"
    using ok by simp
  show ?thesis
    unfolding make_request_ends_at [OF cfg i before at final]
    using ok bad by (simp add: raises_for_status_def)
qed

theorem content_type_guard_witness:
  "fst (make_request (stub_env (\<lambda>n. http_response 200 ''text/html'') 0) default_config
       ''u'' [] [] empty_world) = Inl ValueError
   \<and> ValueError \<noteq> ConnectionError
   \<and> (\<forall>r'. fst (make_request (stub_env (\<lambda>n. http_response 200 ''text/html'') 0) default_config
              ''u'' [] [] empty_world) \<noteq> Inr r')"
proof -
  let ?e = "stub_env (\<lambda>n. http_response 200 ''text/html'') 0"
  let ?r = "\<lparr>status_code = 200, content_type = Some ''text/html''\<rparr>"
  have cfg: "dict_get default_config ''max_retries'' (PyInt 3) = PyInt 3"
    by (simp add: dict_get_def default_config_def)
  have i: "0 < nat 3" by simp
  have before: "\<forall>j<(0::nat). retryable (http ?e (num_gets (trace empty_world) + j))"
    by simp
  have at: "http ?e (num_gets (trace empty_world) + 0) = Responded ?r"
    by (simp add: stub_env_def http_response_def)
  have ok: "200 \<le> status_code ?r" "status_code ?r < 300" by simp_all
  have bad: "not_an_image ?r"
    by (simp add: not_an_image_def sublist_code(3))
  show ?thesis
    using content_type_guard [OF cfg i before at ok bad, of "''u''" "[]" "[]"] by simp
qed

text \<open>
  Claim C10. The \<open>ValueError\<close> of the content-type check is not retried: it leaves
  \<open>_make_request\<close> on the attempt where it is raised. The request of that attempt is
  the last event of the trace, no sleep follows it, and the attempts left in the budget
  are not made, whatever \<open>max_retries\<close> is.
\<close>

theorem validation_error_not_retried:
  assumes cfg: "dict_get cfg ''max_retries'' (PyInt 3) = PyInt m"
    and i: "i < nat m"
    and before: "\<forall>j<i. retryable (http e (num_gets (trace w) + j))"
    and at: "http e (num_gets (trace w) + i) = Responded r"
    and ok: "200 \<le> status_code r" "status_code r < 300"
    and bad: "not_an_image r"
  shows "make_request e cfg url params headers w =
           (Inl ValueError,
            w\<lparr>trace := trace w @ failed_attempts url params headers m [0..<i]
                            @ [Get url params headers]\<rparr>)
         \<and> num_gets (trace (snd (make_request e cfg url params headers w))) =
             num_gets (trace w) + i + 1
         \<and> sleeps (trace (snd (make_request e cfg url params headers w))) =
             sleeps (trace w) @ map (\<lambda>a. 2 ^ a) [0..<i]"
proof -
  have final: "\<not> retryable (Responded r)"
    using ok by simp
  show ?thesis
    unfolding make_request_ends_at [OF cfg i before at final]
    using ok bad
    by (simp add: num_gets_append num_gets_failed_attempts sleeps_append
                  sleeps_failed_below [OF i] raises_for_status_def)
qed

theorem validation_error_not_retried_witness:
  "make_request
       (stub_env (\<lambda>n. if n = 0 then http_response 503 ''text/html''
                       else http_response 200 ''text/html'') 0)
       default_config ''u'' [] [] empty_world =
     (Inl ValueError, empty_world\<lparr>trace := [Get ''u'' [] [], Sleep 1, Get ''u'' [] []]\<rparr>)"
proof -
  let ?e = "stub_env (\<lambda>n. if n = 0 then http_response 503 ''text/html''
                       else http_response 200 ''text/html'') 0"
  let ?r = "\<lparr>status_code = 200, content_type = Some ''text/html''\<rparr>"
  have cfg: "dict_get default_config ''max_retries'' (PyInt 3) = PyInt 3"
    by (simp add: dict_get_def default_config_def)
  have i: "1 < nat 3" by simp
  have before: "\<forall>j<(1::nat). retryable (http ?e (num_gets (trace empty_world) + j))"
    by (simp add: stub_env_def http_response_def raises_for_status_def empty_world_def num_gets_def)
  have at: "http ?e (num_gets (trace empty_world) + 1) = Responded ?r"
    by (simp add: stub_env_def http_response_def)
  have ok: "200 \<le> status_code ?r" "status_code ?r < 300" by simp_all
  have bad: "not_an_image ?r"
    by (simp add: not_an_image_def sublist_code(3))
  show ?thesis
    using validation_error_not_retried [OF cfg i before at ok bad, of "''u''" "[]" "[]"]
    by (simp add: failed_attempts_def empty_world_def)
qed

section \<open>Properties of the cache key\<close>

lemma sort_key_fst_unique:
  assumes A: "distinct (map fst A)" and B: "distinct (map fst B)" and AB: "set A = set B"
  shows "sort_key fst A = sort_key fst B"
proof (rule map_sorted_distinct_set_unique [where f = fst])
  have "inj_on fst (set A)" using A by (simp add: distinct_map)
  then show "inj_on fst (set (sort_key fst A) \<union> set (sort_key fst B))"
    using AB by simp
  show "sorted (map fst (sort_key fst A))" "sorted (map fst (sort_key fst B))"
    by (rule sorted_sort_key)+
  show "distinct (map fst (sort_key fst A))"
    using A by (simp add: distinct_map)
  show "distinct (map fst (sort_key fst B))"
    using B by (simp add: distinct_map)
  show "set (sort_key fst A) = set (sort_key fst B)"
    using AB by simp
qed

lemma sort_key_fst_idem:
  assumes "distinct (map fst A)"
  shows "sort_key fst (sort_key fst A) = sort_key fst A"
  by (rule sort_key_fst_unique) (use assms in \<open>simp_all add: distinct_map\<close>)

text \<open>
  Claim C2. Two parameter dictionaries with the same key-value pairs, whatever the
  order in which the keys were inserted, have the same hash with every prompt: the
  hash is the digest of the prompt and of the serialization of the items sorted by key.
\<close>

theorem hash_key_order_independent:
  assumes A: "distinct (map fst A)" and B: "distinct (map fst B)" and AB: "set A = set B"
  shows "get_hash e P A = get_hash e P B
         \<and> sort_key fst A = sort_key fst B
         \<and> get_hash e P A = md5_hex e (P @ ''_'' @ json_dumps_sorted (sort_key fst A))"
  using sort_key_fst_unique [OF A B AB] sort_key_fst_idem [OF A]
  by (simp add: get_hash_def json_dumps_sorted_def)

theorem hash_key_order_independent_witness:
  "get_hash (stub_env (\<lambda>n. RequestException) 0) ''a red fox in snow''
       [(''width'', PyInt 512), (''model'', PyStr ''flux''), (''seed'', PyInt 42)] =
   get_hash (stub_env (\<lambda>n. RequestException) 0) ''a red fox in snow''
       [(''seed'', PyInt 42), (''width'', PyInt 512), (''model'', PyStr ''flux'')]"
proof -
  let ?A = "[(''width'', PyInt 512), (''model'', PyStr ''flux''), (''seed'', PyInt 42)]"
  let ?B = "[(''seed'', PyInt 42), (''width'', PyInt 512), (''model'', PyStr ''flux'')]"
  have A: "distinct (map fst ?A)" by simp
  have B: "distinct (map fst ?B)" by simp
  have AB: "set ?A = set ?B" by auto
  show ?thesis
    using hash_key_order_independent [OF A B AB] by simp
qed

section \<open>Properties of \<open>generate_image\<close>\<close>

lemma generate_params_world:
  "snd (generate_params e tool kwargs w) = w\<lparr>draws := Suc (draws w)\<rparr>"
  by (simp add: generate_params_def randint_def)

text \<open>
  Claim C1. When the tool has a cache, the table holds a row under the hash of the
  prompt as given (not translated) and of the merged parameters, and the file of that
  row exists, \<open>generate_image\<close> returns the path of the row. The trace is unchanged:
  no request, no sleep, no translation. \<open>cache_hits\<close> grows by one and
  \<open>images_generated\<close> stays. The path of the row is taken to be a non-empty string,
  as is every path that \<open>generate_image\<close> stores (\<open>generate_image_paths\<close> below).
\<close>

theorem cache_hit_skips_network:
  assumes cache: "cache tool = Some c"
    and row: "select_row (db w) (get_hash e prompt (fst (generate_params e tool kwargs w))) = Some r"
    and on_disk: "filepath r \<in> files w"
    and path: "filepath r \<noteq> []"
  shows "fst (generate_image e tool prompt kwargs w) = Inr (Some (filepath r))
         \<and> trace (snd (snd (generate_image e tool prompt kwargs w))) = trace w
         \<and> cache_hits (stats (fst (snd (generate_image e tool prompt kwargs w)))) =
             cache_hits (stats tool) + 1
         \<and> images_generated (stats (fst (snd (generate_image e tool prompt kwargs w)))) =
             images_generated (stats tool)"
proof -
  obtain params w0 where gp: "generate_params e tool kwargs w = (params, w0)"
    by (cases "generate_params e tool kwargs w")
  have w0: "w0 = w\<lparr>draws := Suc (draws w)\<rparr>"
    using generate_params_world [of e tool kwargs w] gp by simp
  have row': "select_row (db w) (get_hash e prompt params) = Some r"
    using row gp by simp
  have get: "cache_get e prompt params w0 =
               (Some (filepath r),
                w0\<lparr>db := touch_row (get_hash e prompt params) (current_timestamp e (trace w0)) (db w0)\<rparr>)"
    using row' on_disk by (simp add: cache_get_def w0)
  show ?thesis
    using path by (simp add: generate_image_def gp cache get [unfolded w0] w0 Let_def)
qed

theorem cache_hit_skips_network_witness:
  "fst (generate_image (stub_env (\<lambda>n. RequestException) 42) stub_tool ''a red fox in snow''
          Map.empty
          (empty_world
             \<lparr>files := {''generated_images/fox.png''},
              db := [\<lparr>prompt_hash =
                        get_hash (stub_env (\<lambda>n. RequestException) 42) ''a red fox in snow''
                          (fst (generate_params (stub_env (\<lambda>n. RequestException) 42) stub_tool
                                  Map.empty empty_world)),
                      filepath = ''generated_images/fox.png'',
                      last_accessed = 9999999\<rparr>]\<rparr>))
     = Inr (Some ''generated_images/fox.png'')"
proof -
  let ?e = "stub_env (\<lambda>n. RequestException) 42"
  let ?r = "\<lparr>prompt_hash = get_hash ?e ''a red fox in snow''
                 (fst (generate_params ?e stub_tool Map.empty empty_world)),
             filepath = ''generated_images/fox.png'', last_accessed = 9999999\<rparr>"
  let ?w = "empty_world\<lparr>files := {''generated_images/fox.png''}, db := [?r]\<rparr>"
  have same: "fst (generate_params ?e stub_tool Map.empty ?w) =
              fst (generate_params ?e stub_tool Map.empty empty_world)"
    by (simp add: generate_params_def randint_def empty_world_def)
  have cache: "cache stub_tool = Some \<lparr>max_age_days = 30\<rparr>"
    by (simp add: stub_tool_def)
  have row: "select_row (db ?w) (get_hash ?e ''a red fox in snow''
               (fst (generate_params ?e stub_tool Map.empty ?w))) = Some ?r"
    unfolding same by (simp add: select_row_def)
  have on_disk: "filepath ?r \<in> files ?w" by simp
  have path: "filepath ?r \<noteq> []" by simp
  show ?thesis
    using cache_hit_skips_network [OF cache row on_disk path] by simp
qed

lemma generate_failed_counters:
  "images_generated (stats (fst (snd (generate_failed err tool w)))) = images_generated (stats tool)
   \<and> cache_hits (stats (fst (snd (generate_failed err tool w)))) = cache_hits (stats tool)"
  by (simp add: generate_failed_def bump_errors_def)

lemma generate_fresh_counters:
  "cache_hits (stats (fst (snd (generate_fresh e tool prompt params t0 w)))) = cache_hits (stats tool)
   \<and> (images_generated (stats (fst (snd (generate_fresh e tool prompt params t0 w)))) =
         images_generated (stats tool)
      \<or> images_generated (stats (fst (snd (generate_fresh e tool prompt params t0 w)))) =
         images_generated (stats tool) + 1)"
  by (auto simp: generate_fresh_def generate_failed_counters Let_def
           split: prod.splits sum.splits)

text \<open>One call changes at most one of the two counters, and by one.\<close>

lemma generate_image_counters:
  fixes e tool prompt kwargs w
  defines "tool' \<equiv> fst (snd (generate_image e tool prompt kwargs w))"
  shows "(images_generated (stats tool') = images_generated (stats tool)
            \<and> cache_hits (stats tool') = cache_hits (stats tool))
         \<or> (images_generated (stats tool') = images_generated (stats tool) + 1
            \<and> cache_hits (stats tool') = cache_hits (stats tool))
         \<or> (images_generated (stats tool') = images_generated (stats tool)
            \<and> cache_hits (stats tool') = cache_hits (stats tool) + 1)"
  unfolding tool'_def
  using generate_fresh_counters [of e tool prompt]
  by (auto simp: generate_image_def Let_def split: prod.splits option.splits)

lemma generate_image_sum:
  "images_generated (stats (fst (snd (generate_image e tool prompt kwargs w))))
     + cache_hits (stats (fst (snd (generate_image e tool prompt kwargs w))))
   \<le> images_generated (stats tool) + cache_hits (stats tool) + 1"
  using generate_image_counters [of e tool prompt kwargs w] by auto

lemma generate_calls_sum:
  "images_generated (stats (fst (generate_calls e calls tool w)))
     + cache_hits (stats (fst (generate_calls e calls tool w)))
   \<le> images_generated (stats tool) + cache_hits (stats tool) + int (length calls)"
proof (induction calls arbitrary: tool w)
  case Nil
  show ?case by simp
next
  case (Cons call calls)
  obtain prompt kwargs where call: "call = (prompt, kwargs)" by (cases call)
  obtain res tool' w' where step: "generate_image e tool prompt kwargs w = (res, tool', w')"
    by (cases "generate_image e tool prompt kwargs w")
  have "images_generated (stats tool') + cache_hits (stats tool')
          \<le> images_generated (stats tool) + cache_hits (stats tool) + 1"
    using generate_image_sum [of e tool prompt kwargs w] step by simp
  moreover have "images_generated (stats (fst (generate_calls e calls tool' w')))
     + cache_hits (stats (fst (generate_calls e calls tool' w')))
   \<le> images_generated (stats tool') + cache_hits (stats tool') + int (length calls)"
    by (rule Cons.IH)
  ultimately show ?case by (simp add: call step)
qed

lemma image_tool_init_stats:
  "stats (fst (image_tool_init e cfg w)) =
     \<lparr>images_generated = 0, cache_hits = 0, total_generation_time = 0, errors = 0\<rparr>"
  by (simp add: image_tool_init_def Let_def split: prod.splits)

text \<open>
  Claim C9. After any finite sequence of calls of \<open>generate_image\<close> on a tool that
  \<open>__init__\<close> has built, \<open>images_generated + cache_hits\<close> is at most the number of
  calls; each call leaves both counters, or adds one to exactly one of them.
\<close>

theorem counters_bounded_by_calls:
  "images_generated (stats (fst (generate_calls e calls (fst (image_tool_init e cfg w0)) w)))
     + cache_hits (stats (fst (generate_calls e calls (fst (image_tool_init e cfg w0)) w)))
   \<le> int (length calls)
   \<and> images_generated (stats (fst (generate_calls e calls tool w)))
       + cache_hits (stats (fst (generate_calls e calls tool w)))
     \<le> images_generated (stats tool) + cache_hits (stats tool) + int (length calls)
   \<and> ((images_generated (stats (fst (snd (generate_image e tool prompt kwargs w)))) =
          images_generated (stats tool)
        \<and> cache_hits (stats (fst (snd (generate_image e tool prompt kwargs w)))) =
          cache_hits (stats tool))
       \<or> (images_generated (stats (fst (snd (generate_image e tool prompt kwargs w)))) =
          images_generated (stats tool) + 1
        \<and> cache_hits (stats (fst (snd (generate_image e tool prompt kwargs w)))) =
          cache_hits (stats tool))
       \<or> (images_generated (stats (fst (snd (generate_image e tool prompt kwargs w)))) =
          images_generated (stats tool)
        \<and> cache_hits (stats (fst (snd (generate_image e tool prompt kwargs w)))) =
          cache_hits (stats tool) + 1))"
proof -
  have "images_generated (stats (fst (generate_calls e calls (fst (image_tool_init e cfg w0)) w)))
     + cache_hits (stats (fst (generate_calls e calls (fst (image_tool_init e cfg w0)) w)))
   \<le> int (length calls)"
    using generate_calls_sum [of e calls "fst (image_tool_init e cfg w0)" w]
    by (simp add: image_tool_init_stats)
  then show ?thesis
    using generate_calls_sum [of e calls tool w]
          generate_image_counters [of e tool prompt kwargs w]
    by blast
qed

section \<open>The seed\<close>

lemma randint_range:
  assumes "a \<le> b"
  shows "a \<le> fst (randint e a b w) \<and> fst (randint e a b w) \<le> b"
proof -
  have pos: "0 < nat (b - a + 1)" using assms by simp
  have "rng e (draws w) mod nat (b - a + 1) < nat (b - a + 1)"
    by (rule mod_less_divisor [OF pos])
  then have "int (rng e (draws w) mod nat (b - a + 1)) \<le> b - a" by linarith
  then show ?thesis by (simp add: randint_def)
qed

text \<open>
  Claim C7, as the code has it. Without a \<open>seed\<close> override, the seed of the
  parameters of \<open>generate_image\<close> and of each attempt of \<open>edit_image\<close> is an integer
  \<open>s\<close> of the closed range \<open>0 \<le> s \<le> 1_000_000_000\<close>: \<open>random.randint\<close> includes
  its upper end.
\<close>

theorem seed_in_closed_range:
  assumes no_seed: "kwargs ''seed'' = None"
    and param: "param = ''image'' \<or> param = ''reference''"
  shows "(\<exists>s. map_of (fst (generate_params e tool kwargs w)) ''seed'' = Some (PyInt s)
              \<and> 0 \<le> s \<and> s \<le> 1000000000)
         \<and> (\<exists>s. map_of (fst (edit_params e tool kwargs model param public_url w)) ''seed'' =
                   Some (PyInt s)
              \<and> 0 \<le> s \<and> s \<le> 1000000000)"
proof -
  have range: "0 \<le> fst (randint e 0 1000000000 w) \<and> fst (randint e 0 1000000000 w) \<le> 1000000000"
    by (rule randint_range) simp
  have "map_of (fst (generate_params e tool kwargs w)) ''seed'' =
          Some (PyInt (fst (randint e 0 1000000000 w)))"
    using no_seed by (simp add: generate_params_def dict_get_def split: prod.splits)
  moreover have "map_of (fst (edit_params e tool kwargs model param public_url w)) ''seed'' =
          Some (PyInt (fst (randint e 0 1000000000 w)))"
    using no_seed param by (auto simp: edit_params_def dict_get_def split: prod.splits)
  ultimately show ?thesis using range by simp
qed

theorem seed_in_closed_range_witness:
  "(\<exists>s. map_of (fst (generate_params (stub_env (\<lambda>n. RequestException) 7) stub_tool Map.empty
                        empty_world)) ''seed'' = Some (PyInt s)
         \<and> 0 \<le> s \<and> s \<le> 1000000000)
   \<and> (\<exists>s. map_of (fst (edit_params (stub_env (\<lambda>n. RequestException) 7) stub_tool Map.empty
                           ''flux'' ''reference'' ''https://host/d/1/in.png'' empty_world))
              ''seed'' = Some (PyInt s)
         \<and> 0 \<le> s \<and> s \<le> 1000000000)"
proof -
  have no_seed: "(Map.empty :: string \<rightharpoonup> pyval) ''seed'' = None" by simp
  have param: "''reference'' = ''image'' \<or> ''reference'' = ''reference''" by simp
  show ?thesis
    by (rule seed_in_closed_range [OF no_seed param])
qed

text \<open>The half-open range of the claim fails: when the generator gives its largest
  value the seed is \<open>1_000_000_000\<close> itself.\<close>

theorem seed_half_open_counterexample:
  "map_of (fst (generate_params (stub_env (\<lambda>n. RequestException) 1000000000) stub_tool
                  Map.empty empty_world)) ''seed'' = Some (PyInt 1000000000)
   \<and> \<not> ((1000000000 :: int) < 1000000000)"
  by (simp add: generate_params_def randint_def stub_env_def empty_world_def dict_get_def)

section \<open>Properties of \<open>clean_cache\<close>\<close>






text \<open>Where the local clock reads what the UTC clock reads, to the second and with no
  microseconds, the rows that the first pass selects are those last accessed more than
  the age limit ago.\<close>

lemma stamp_less_same_clock:
  assumes "datetime_now e (trace w) = (current_timestamp e (trace w), 0)"
  shows "stamp_less (last_accessed r) (cutoff_date e c days w) =
           ((if days > 0 then days else max_age_days c) * 86400
              < current_timestamp e (trace w) - last_accessed r)"
  using assms by (auto simp: stamp_less_def cutoff_date_def Let_def)










section \<open>Properties of \<open>edit_image\<close>\<close>

lemma attempts_append: "attempts (xs @ ys) = attempts xs @ attempts ys"
  by (induction xs rule: attempts.induct) simp_all

lemma attempts_backoff_emit:
  "attempts (trace (backoff m a (emit (Get url params headers) w))) = attempts (trace w)"
  by (simp add: trace_backoff_emit attempts_append)

lemma make_request_loop_attempts:
  "attempts (trace (snd (make_request_loop e url params headers m as w))) = attempts (trace w)"
proof (induction as arbitrary: w)
  case Nil
  show ?case by simp
next
  case (Cons a as)
  have emitted: "attempts (trace (emit (Get url params headers) w)) = attempts (trace w)"
    by (simp add: emit_def attempts_append)
  show ?case
    by (cases "http e (num_gets (trace w))")
       (simp_all add: Let_def Cons.IH attempts_backoff_emit emitted)
qed

lemma make_request_attempts:
  "attempts (trace (snd (make_request e cfg url params headers w))) = attempts (trace w)"
  by (simp add: make_request_def make_request_loop_attempts split: option.splits)

lemma save_image_trace: "trace (snd (save_image e cfg filename w)) = trace w"
  by (simp add: save_image_def Let_def split: pyval.splits save_outcome.splits)

lemma edit_params_trace:
  "trace (snd (edit_params e tool kwargs model param public_url w)) = trace w"
  by (simp add: edit_params_def randint_def)

text \<open>Every turn of the loop names its model once, whatever its outcome.\<close>

lemma edit_attempt_attempts:
  "attempts (trace (snd (edit_attempt e tool tp pu kwargs (model, param, pre) w))) =
     attempts (trace w) @ [model]"
proof -
  obtain params w1 where ep: "edit_params e tool kwargs model param pu (emit (Edit_attempt model) w) = (params, w1)"
    by (cases "edit_params e tool kwargs model param pu (emit (Edit_attempt model) w)")
  have w1: "attempts (trace w1) = attempts (trace w) @ [model]"
    using edit_params_trace [of e tool kwargs model param pu "emit (Edit_attempt model) w"] ep
    by (simp add: emit_def attempts_append)
  obtain res w2 where mr: "make_request e (config tool) (BASE_URL @ quote_plus (pre @ tp)) params
                             (auth_headers tool) w1 = (res, w2)"
    by (cases "make_request e (config tool) (BASE_URL @ quote_plus (pre @ tp)) params
                 (auth_headers tool) w1")
  have w2: "attempts (trace w2) = attempts (trace w) @ [model]"
    using make_request_attempts [of e "config tool" "BASE_URL @ quote_plus (pre @ tp)" params
            "auth_headers tool" w1] mr w1 by simp
  show ?thesis
    by (simp add: edit_attempt_def ep mr Let_def w2 save_image_trace split: sum.splits)
qed

lemma dropWhile_keeps:
  assumes "xs \<noteq> []" and "\<not> P (hd xs)"
  shows "dropWhile P (xs @ ys) = xs @ ys"
  using assms by (cases xs) simp_all

lemma strip_keeps_tag:
  assumes stable: "list_all (\<lambda>c. \<not> is_space c) tag" and ne: "tag \<noteq> []"
  shows "\<exists>z. strip (tag @ x) = tag @ z"
proof -
  have hd_ok: "\<not> is_space (hd tag)"
    using stable ne by (cases tag) simp_all
  have last_ok: "\<not> is_space (hd (rev tag))"
    using stable ne by (simp add: hd_rev list_all_iff)
  have front: "dropWhile is_space (tag @ x) = tag @ x"
    by (rule dropWhile_keeps [where P = is_space, OF ne hd_ok])
  have back_tag: "dropWhile is_space (rev tag) = rev tag"
    using dropWhile_keeps [of "rev tag" is_space "[]"] ne last_ok by simp
  have "dropWhile is_space (rev x @ rev tag) =
          (if \<forall>c\<in>set (rev x). is_space c then rev tag else dropWhile is_space (rev x) @ rev tag)"
    by (simp add: dropWhile_append back_tag)
  then have "rev (dropWhile is_space (rev (tag @ x))) =
          (if \<forall>c\<in>set (rev x). is_space c then tag else tag @ rev (dropWhile is_space (rev x)))"
    by simp
  then show ?thesis
    unfolding strip_def front by (cases "\<forall>c\<in>set (rev x). is_space c") auto
qed

text \<open>A tag of stable characters, at most 50 long, opens the cleaned prompt.\<close>

lemma clean_prompt_keeps_tag:
  assumes stable: "list_all slug_stable tag" and ne: "tag \<noteq> []" and len: "length tag \<le> 50"
  shows "prefix tag (clean_prompt (tag @ rest))"
proof -
  let ?keep = "\<lambda>c. is_word c \<or> is_space c \<or> c = CHR ''-''"
  let ?repl = "\<lambda>c. if c = CHR '' '' then CHR ''_'' else c"
  have lower: "map py_lower tag = tag"
    using stable by (auto simp: list_all_iff slug_stable_def intro: map_idI)
  have kept: "filter ?keep tag = tag"
    using stable by (auto simp: list_all_iff slug_stable_def)
  have no_space: "list_all (\<lambda>c. \<not> is_space c) tag"
    using stable by (auto simp: list_all_iff slug_stable_def)
  have blank: "is_space (CHR '' '')"
    by (simp add: is_space_def)
  have "c \<noteq> CHR '' ''" if "c \<in> set tag" for c
    using that no_space blank by (auto simp: list_all_iff)
  then have repl: "map ?repl tag = tag"
    by (intro map_idI) simp
  obtain z where z: "strip (tag @ filter ?keep (map py_lower rest)) = tag @ z"
    using strip_keeps_tag [OF no_space ne] by blast
  have "clean_prompt (tag @ rest) = take 50 (tag @ map ?repl z)"
    by (simp add: clean_prompt_def lower kept z repl)
  also have "\<dots> = tag @ take (50 - length tag) (map ?repl z)"
    using len by simp
  finally show ?thesis by simp
qed

lemma known_tags_stable:
  "list_all slug_stable ''edit_kontext_''"
  "list_all slug_stable ''edit_flux_''"
  "list_all slug_stable ''edit_flux-kontext_''"
  by (simp_all add: slug_stable_def py_lower_def is_word_def is_space_def ascii_alnum_def)

lemma edit_filename_tagged:
  assumes "(model, param, pre) \<in> set model_params"
  shows "prefix (''edit_'' @ model @ ''_'') (clean_prompt (''edit_'' @ model @ ''_'' @ tp))"
proof -
  have "model = ''kontext'' \<or> model = ''flux'' \<or> model = ''flux-kontext''"
    using assms by (auto simp: model_params_def)
  then show ?thesis
    using clean_prompt_keeps_tag [OF known_tags_stable(1), of tp]
          clean_prompt_keeps_tag [OF known_tags_stable(2), of tp]
          clean_prompt_keeps_tag [OF known_tags_stable(3), of tp]
    by auto
qed

lemma edit_attempt_saved:
  assumes known: "(model, param, pre) \<in> set model_params"
    and ok: "fst (edit_attempt e tool tp pu kwargs (model, param, pre) w) = Inr p"
  shows "\<exists>d fname. p = path_join e d fname \<and> prefix (''edit_'' @ model @ ''_'') fname"
proof -
  obtain params w1 where ep:
    "edit_params e tool kwargs model param pu (emit (Edit_attempt model) w) = (params, w1)"
    by (cases "edit_params e tool kwargs model param pu (emit (Edit_attempt model) w)")
  obtain res w2 where mr: "make_request e (config tool) (BASE_URL @ quote_plus (pre @ tp)) params
                             (auth_headers tool) w1 = (res, w2)"
    by (cases "make_request e (config tool) (BASE_URL @ quote_plus (pre @ tp)) params
                 (auth_headers tool) w1")
  from ok obtain fname where
    name: "generate_filename e (config tool) (''edit_'' @ model @ ''_'' @ tp) w2 = Inr fname"
    and saved: "fst (save_image e (config tool) fname w2) = Inr p"
    by (auto simp: edit_attempt_def ep mr Let_def split: sum.splits)
  have tagged: "prefix (''edit_'' @ model @ ''_'') fname"
    using name edit_filename_tagged [OF known, of tp]
    by (auto simp: generate_filename_def split: pyval.splits)
  from saved obtain d where "p = path_join e d fname"
    by (auto simp: save_image_def Let_def split: pyval.splits save_outcome.splits)
  with tagged show ?thesis by blast
qed

text \<open>The loop tries the models in the order of its list and stops at the first attempt
  that saved a file; the name of that file opens with \<open>edit_\<close> and the model.\<close>

lemma edit_loop_attempts:
  assumes "set ms \<subseteq> set model_params"
  shows "\<exists>n\<le>length ms.
           attempts (trace (snd (edit_loop e tool tp pu kwargs ms w))) =
             attempts (trace w) @ take n (map fst ms)
           \<and> (\<forall>p. fst (edit_loop e tool tp pu kwargs ms w) = Inr (Some p) \<longrightarrow>
                  0 < n \<and> (\<exists>d fname. p = path_join e d fname
                                \<and> prefix (''edit_'' @ map fst ms ! (n - 1) @ ''_'') fname))"
  using assms
proof (induction ms arbitrary: w)
  case Nil
  show ?case by simp
next
  case (Cons m ms)
  obtain model param pre where m: "m = (model, param, pre)" by (cases m)
  have known: "(model, param, pre) \<in> set model_params" and rest: "set ms \<subseteq> set model_params"
    using Cons.prems by (simp_all add: m)
  obtain r w' where at: "edit_attempt e tool tp pu kwargs (model, param, pre) w = (r, w')"
    by (cases "edit_attempt e tool tp pu kwargs (model, param, pre) w")
  have named: "attempts (trace w') = attempts (trace w) @ [model]"
    using edit_attempt_attempts [of e tool tp pu kwargs model param pre w] at by simp
  show ?case
  proof (cases r)
    case (Inr p)
    have tag: "\<exists>d fname. p = path_join e d fname \<and> prefix (''edit_'' @ model @ ''_'') fname"
      using edit_attempt_saved [OF known, of e tool tp pu kwargs w p] at Inr by simp
    have "attempts (trace (snd (edit_loop e tool tp pu kwargs (m # ms) w))) =
            attempts (trace w) @ take 1 (map fst (m # ms))"
      by (simp add: m at Inr named)
    moreover have "fst (edit_loop e tool tp pu kwargs (m # ms) w) = Inr (Some p)"
      by (simp add: m at Inr)
    ultimately show ?thesis
      using tag by (intro exI [of _ 1]) (simp add: m)
  next
    case (Inl err)
    show ?thesis
    proof (cases "caught err")
      case False
      have "attempts (trace (snd (edit_loop e tool tp pu kwargs (m # ms) w))) =
              attempts (trace w) @ take 1 (map fst (m # ms))"
        by (simp add: m at Inl False named)
      moreover have "fst (edit_loop e tool tp pu kwargs (m # ms) w) = Inl err"
        by (simp add: m at Inl False)
      ultimately show ?thesis
        by (intro exI [of _ 1]) simp
    next
      case True
      have loop: "edit_loop e tool tp pu kwargs (m # ms) w = edit_loop e tool tp pu kwargs ms w'"
        by (simp add: m at Inl True)
      obtain n where n: "n \<le> length ms"
        and tr: "attempts (trace (snd (edit_loop e tool tp pu kwargs ms w'))) =
                   attempts (trace w') @ take n (map fst ms)"
        and res: "\<forall>p. fst (edit_loop e tool tp pu kwargs ms w') = Inr (Some p) \<longrightarrow>
                  0 < n \<and> (\<exists>d fname. p = path_join e d fname
                                \<and> prefix (''edit_'' @ map fst ms ! (n - 1) @ ''_'') fname)"
        using Cons.IH [OF rest, of w'] by blast
      have tr': "attempts (trace (snd (edit_loop e tool tp pu kwargs (m # ms) w))) =
                   attempts (trace w) @ take (Suc n) (map fst (m # ms))"
        unfolding loop by (simp add: tr named m)
      have res': "\<forall>p. fst (edit_loop e tool tp pu kwargs (m # ms) w) = Inr (Some p) \<longrightarrow>
                  0 < Suc n \<and> (\<exists>d fname. p = path_join e d fname
                      \<and> prefix (''edit_'' @ map fst (m # ms) ! (Suc n - 1) @ ''_'') fname)"
        unfolding loop using res by (auto simp: nth_Cons')
      show ?thesis
        using n tr' res' by (intro exI [of _ "Suc n"]) simp
    qed
  qed
qed

lemma known_model_in: "known_model v = Some x \<Longrightarrow> x \<in> set model_params"
  by (cases v) (auto dest: map_of_SomeD)

lemma edit_methods_known: "set (edit_methods pm) \<subseteq> set model_params"
  by (auto simp: edit_methods_def List.map_filter_def dest: known_model_in)

text \<open>The list of attempts: the preferred model first when it is a key of
  \<open>model_params\<close>, then the other keys in the order of the dictionary; a preferred model
  that is no key is left out.\<close>

lemma edit_methods_order:
  "map fst (edit_methods pm) =
     (case pm of
        PyStr s \<Rightarrow>
          if s \<in> set (map fst model_params)
          then s # filter (\<lambda>m. m \<noteq> s) (map fst model_params)
          else map fst model_params
      | _ \<Rightarrow> map fst model_params)"
  by (cases pm)
     (auto simp: edit_methods_def methods_to_try_def model_params_def)

lemma edit_methods_distinct:
  "distinct (map fst (edit_methods pm)) \<and>
   set (map fst (edit_methods pm)) = set (map fst model_params)"
  unfolding edit_methods_order
  by (cases pm) (auto simp: model_params_def)

lemma translate_prompt_attempts:
  "attempts (trace (snd (translate_prompt e txt w))) = attempts (trace w)"
  by (simp add: translate_prompt_def Let_def emit_def attempts_append split: option.splits)

lemma upload_attempts:
  "attempts (trace (snd (upload_to_gofile e tool image_path w))) = attempts (trace w)"
  by (simp add: upload_to_gofile_def emit_def attempts_append)

lemma edit_image_chain:
  "\<exists>n\<le>length (edit_methods (preferred_model tool)).
     attempts (trace (snd (snd (edit_image e tool prompt image_path kwargs w)))) =
       attempts (trace w) @ take n (map fst (edit_methods (preferred_model tool)))
     \<and> (\<forall>p. fst (edit_image e tool prompt image_path kwargs w) = Inr (Some p) \<longrightarrow>
            0 < n \<and> (\<exists>d fname. p = path_join e d fname
                       \<and> prefix (''edit_'' @ map fst (edit_methods (preferred_model tool)) ! (n - 1)
                                   @ ''_'') fname))"
proof -
  let ?ms = "edit_methods (preferred_model tool)"
  let ?R = "edit_image e tool prompt image_path kwargs w"
  obtain pu w1 where up: "upload_to_gofile e tool image_path w = (pu, w1)"
    by (cases "upload_to_gofile e tool image_path w")
  have w1: "attempts (trace w1) = attempts (trace w)"
    using upload_attempts [of e tool image_path w] up by simp
  show ?thesis
  proof (cases "image_path \<in> files w \<and> pu \<noteq> None \<and> pu \<noteq> Some []")
    case False
    then have "fst ?R = Inr None \<and> attempts (trace (snd (snd ?R))) = attempts (trace w)"
      using w1 by (auto simp: edit_image_def up split: option.splits)
    then show ?thesis by (intro exI [of _ 0]) simp
  next
    case True
    then obtain u where pu: "pu = Some u" and u: "u \<noteq> []" and here: "image_path \<in> files w"
      by auto
    obtain tp w2 where tr: "translate_prompt e prompt w1 = (tp, w2)"
      by (cases "translate_prompt e prompt w1")
    have w2: "attempts (trace w2) = attempts (trace w)"
      using translate_prompt_attempts [of e prompt w1] tr w1 by simp
    obtain r w3 where lp: "edit_loop e tool tp u kwargs ?ms w2 = (r, w3)"
      by (cases "edit_loop e tool tp u kwargs ?ms w2")
    obtain n where n: "n \<le> length ?ms"
      and tr3: "attempts (trace w3) = attempts (trace w2) @ take n (map fst ?ms)"
      and res: "\<forall>p. r = Inr (Some p) \<longrightarrow>
                  0 < n \<and> (\<exists>d fname. p = path_join e d fname
                                \<and> prefix (''edit_'' @ map fst ?ms ! (n - 1) @ ''_'') fname)"
      using edit_loop_attempts [OF edit_methods_known [of "preferred_model tool"],
              where e = e and tool = tool and tp = tp and pu = u and kwargs = kwargs and w = w2] lp
      by auto
    have out: "snd (snd ?R) = w3 \<and> (\<forall>p. fst ?R = Inr (Some p) \<longrightarrow> r = Inr (Some p))"
      using here u by (auto simp: edit_image_def up pu tr lp split: sum.splits option.splits)
    show ?thesis
      using n tr3 res out w2 by (intro exI [of _ n]) auto
  qed
qed

subsection \<open>The chain, attempt by attempt\<close>

lemma after_attempts_append:
  "after_attempts e tool tp pu kwargs (xs @ ys) w =
     after_attempts e tool tp pu kwargs ys (after_attempts e tool tp pu kwargs xs w)"
  by (induction xs arbitrary: w) simp_all

lemma after_attempts_models:
  "attempts (trace (after_attempts e tool tp pu kwargs xs w)) = attempts (trace w) @ map fst xs"
proof (induction xs arbitrary: w)
  case Nil
  show ?case by simp
next
  case (Cons m xs)
  obtain model param pre where m: "m = (model, param, pre)" by (cases m)
  show ?case
    by (simp add: Cons.IH m edit_attempt_attempts)
qed

text \<open>While the attempts fail, the loop goes on with the next model, in the world that
  the failed attempts left.\<close>

lemma edit_loop_skips_failures:
  assumes "k \<le> length ms"
    and "\<forall>j<k. attempt_fails (nth_attempt e tool tp pu kwargs ms w j)"
  shows "edit_loop e tool tp pu kwargs ms w =
           edit_loop e tool tp pu kwargs (drop k ms)
             (after_attempts e tool tp pu kwargs (take k ms) w)"
  using assms
proof (induction ms arbitrary: k w)
  case Nil
  then show ?case by simp
next
  case (Cons m ms)
  show ?case
  proof (cases k)
    case 0
    then show ?thesis by simp
  next
    case (Suc k')
    obtain r w' where at: "edit_attempt e tool tp pu kwargs m w = (r, w')"
      by (cases "edit_attempt e tool tp pu kwargs m w")
    have "attempt_fails (nth_attempt e tool tp pu kwargs (m # ms) w 0)"
      using Cons.prems(2) Suc by simp
    then have failed: "attempt_fails r"
      by (simp add: nth_attempt_def at)
    then obtain err where r: "r = Inl err" and err: "caught err"
      by (cases r) simp_all
    have step: "edit_loop e tool tp pu kwargs (m # ms) w = edit_loop e tool tp pu kwargs ms w'"
      by (simp add: at r err)
    have later: "\<forall>j<k'. attempt_fails (nth_attempt e tool tp pu kwargs ms w' j)"
    proof (intro allI impI)
      fix j assume "j < k'"
      then have "attempt_fails (nth_attempt e tool tp pu kwargs (m # ms) w (Suc j))"
        using Cons.prems(2) Suc by simp
      then show "attempt_fails (nth_attempt e tool tp pu kwargs ms w' j)"
        by (simp add: nth_attempt_def at)
    qed
    have "edit_loop e tool tp pu kwargs ms w' =
            edit_loop e tool tp pu kwargs (drop k' ms)
              (after_attempts e tool tp pu kwargs (take k' ms) w')"
      using Cons.prems(1) Suc by (intro Cons.IH later) simp
    then show ?thesis
      unfolding step by (simp add: Suc at)
  qed
qed

lemma edit_loop_first_success:
  assumes k: "k < length ms"
    and before: "\<forall>j<k. attempt_fails (nth_attempt e tool tp pu kwargs ms w j)"
    and saved: "nth_attempt e tool tp pu kwargs ms w k = Inr p"
  shows "edit_loop e tool tp pu kwargs ms w =
           (Inr (Some p), after_attempts e tool tp pu kwargs (take (Suc k) ms) w)"
proof -
  let ?wk = "after_attempts e tool tp pu kwargs (take k ms) w"
  have "edit_loop e tool tp pu kwargs ms w = edit_loop e tool tp pu kwargs (drop k ms) ?wk"
    using k before by (intro edit_loop_skips_failures) simp_all
  also have "drop k ms = ms ! k # drop (Suc k) ms"
    using k by (simp add: Cons_nth_drop_Suc)
  also have "edit_loop e tool tp pu kwargs (ms ! k # drop (Suc k) ms) ?wk =
               (Inr (Some p), snd (edit_attempt e tool tp pu kwargs (ms ! k) ?wk))"
  proof -
    obtain r w' where at: "edit_attempt e tool tp pu kwargs (ms ! k) ?wk = (r, w')"
      by (cases "edit_attempt e tool tp pu kwargs (ms ! k) ?wk")
    have "r = Inr p"
      using saved by (simp add: nth_attempt_def at)
    then show ?thesis by (simp add: at)
  qed
  also have "snd (edit_attempt e tool tp pu kwargs (ms ! k) ?wk) =
               after_attempts e tool tp pu kwargs (take (Suc k) ms) w"
    using k by (simp add: take_Suc_conv_app_nth after_attempts_append)
  finally show ?thesis .
qed

lemma edit_loop_all_fail:
  assumes "\<forall>j<length ms. attempt_fails (nth_attempt e tool tp pu kwargs ms w j)"
  shows "edit_loop e tool tp pu kwargs ms w = (Inr None, after_attempts e tool tp pu kwargs ms w)"
  using edit_loop_skips_failures [of "length ms" ms e tool tp pu kwargs w] assms by simp

lemma edit_image_started:
  assumes "edit_start e tool prompt image_path w = Some (u, tp, w2)"
  shows "edit_image e tool prompt image_path kwargs w =
           (case edit_loop e tool tp u kwargs (edit_methods (preferred_model tool)) w2 of
              (Inr (Some saved_path), w3) \<Rightarrow> (Inr (Some saved_path), tool, w3)
            | (Inr None, w3) \<Rightarrow> (Inr None, bump_errors tool, w3)
            | (Inl err, w3) \<Rightarrow> (Inl err, tool, w3))
         \<and> attempts (trace w2) = attempts (trace w)"
proof -
  from assms obtain w1 where here: "image_path \<in> files w"
    and up: "upload_to_gofile e tool image_path w = (Some u, w1)"
    and u: "u \<noteq> []"
    and tr: "translate_prompt e prompt w1 = (tp, w2)"
    by (auto simp: edit_start_def split: if_splits prod.splits option.splits)
  have "attempts (trace w1) = attempts (trace w)"
    using upload_attempts [of e tool image_path w] up by simp
  moreover have "attempts (trace w2) = attempts (trace w1)"
    using translate_prompt_attempts [of e prompt w1] tr by simp
  ultimately show ?thesis
    using here u by (simp add: edit_image_def up tr)
qed

lemma edit_image_not_started:
  assumes "edit_start e tool prompt image_path w = None"
  shows "fst (edit_image e tool prompt image_path kwargs w) = Inr None
         \<and> fst (snd (edit_image e tool prompt image_path kwargs w)) = tool
         \<and> attempts (trace (snd (snd (edit_image e tool prompt image_path kwargs w)))) =
             attempts (trace w)"
proof -
  obtain pu w1 where up: "upload_to_gofile e tool image_path w = (pu, w1)"
    by (cases "upload_to_gofile e tool image_path w")
  have w1: "attempts (trace w1) = attempts (trace w)"
    using upload_attempts [of e tool image_path w] up by simp
  show ?thesis
    using assms w1
    by (auto simp: edit_start_def edit_image_def up split: if_splits prod.splits option.splits)
qed

lemma nth_method_tagged:
  assumes k: "k < length (edit_methods pm)"
    and saved: "nth_attempt e tool tp pu kwargs (edit_methods pm) w k = Inr p"
  shows "\<exists>d fname. p = path_join e d fname
           \<and> prefix (''edit_'' @ fst (edit_methods pm ! k) @ ''_'') fname"
proof -
  obtain model param pre where m: "edit_methods pm ! k = (model, param, pre)"
    by (cases "edit_methods pm ! k")
  have "edit_methods pm ! k \<in> set model_params"
    using k edit_methods_known [of pm] by (auto dest: nth_mem)
  then have known: "(model, param, pre) \<in> set model_params"
    by (simp add: m)
  show ?thesis
    using edit_attempt_saved [OF known, of e tool tp pu kwargs _ p] saved
    by (simp add: nth_attempt_def m)
qed

text \<open>
  Claim C6, as the code has it. \<open>edit_image\<close> tries the keys of \<open>model_params\<close> in
  order, each once: the configured preferred model first when it is one of these keys
  (a preferred model that is no key is left out of the list), then the other keys in the
  order of the dictionary. The models tried are an initial part of this list. Once the
  image is uploaded and the prompt translated, an attempt that fails with a caught
  exception is followed by the attempt with the next model. If the attempts before
  attempt \<open>k\<close> fail and attempt \<open>k\<close> saves a file, \<open>edit_image\<close> returns the path of that
  file, whose name opens with \<open>edit_\<close> and the model of attempt \<open>k\<close>, and exactly the
  first \<open>k + 1\<close> models have been tried. If every attempt fails, every model has been
  tried, \<open>errors\<close> grows by one and the result is \<open>None\<close>. When the image is missing
  or the upload fails, no attempt is made.
\<close>

theorem edit_fallback_chain:
  fixes e :: env and tool :: image_tool and prompt image_path :: string
    and kwargs :: "string \<rightharpoonup> pyval" and w :: world
  defines "ms \<equiv> edit_methods (preferred_model tool)"
  defines "R \<equiv> edit_image e tool prompt image_path kwargs w"
  shows
   "map fst ms =
     (case preferred_model tool of
        PyStr s \<Rightarrow>
          if s \<in> set (map fst model_params)
          then s # filter (\<lambda>m. m \<noteq> s) (map fst model_params)
          else map fst model_params
      | _ \<Rightarrow> map fst model_params)
   \<and> distinct (map fst ms)
   \<and> set (map fst ms) = set (map fst model_params)
   \<and> (\<exists>n\<le>length ms.
         attempts (trace (snd (snd R))) = attempts (trace w) @ take n (map fst ms)
         \<and> (\<forall>p. fst R = Inr (Some p) \<longrightarrow>
                0 < n \<and> (\<exists>d fname. p = path_join e d fname
                           \<and> prefix (''edit_'' @ map fst ms ! (n - 1) @ ''_'') fname)))
   \<and> (\<forall>u tp w2 k p.
         edit_start e tool prompt image_path w = Some (u, tp, w2)
         \<and> k < length ms
         \<and> (\<forall>j<k. attempt_fails (nth_attempt e tool tp u kwargs ms w2 j))
         \<and> nth_attempt e tool tp u kwargs ms w2 k = Inr p
         \<longrightarrow> R = (Inr (Some p), tool, after_attempts e tool tp u kwargs (take (Suc k) ms) w2)
             \<and> attempts (trace (snd (snd R))) = attempts (trace w) @ take (Suc k) (map fst ms)
             \<and> (\<exists>d fname. p = path_join e d fname
                   \<and> prefix (''edit_'' @ fst (ms ! k) @ ''_'') fname))
   \<and> (\<forall>u tp w2.
         edit_start e tool prompt image_path w = Some (u, tp, w2)
         \<and> (\<forall>j<length ms. attempt_fails (nth_attempt e tool tp u kwargs ms w2 j))
         \<longrightarrow> R = (Inr None, bump_errors tool, after_attempts e tool tp u kwargs ms w2)
             \<and> attempts (trace (snd (snd R))) = attempts (trace w) @ map fst ms)
   \<and> (edit_start e tool prompt image_path w = None
         \<longrightarrow> fst R = Inr None \<and> fst (snd R) = tool
             \<and> attempts (trace (snd (snd R))) = attempts (trace w))"
proof -
  have order: "map fst ms =
     (case preferred_model tool of
        PyStr s \<Rightarrow>
          if s \<in> set (map fst model_params)
          then s # filter (\<lambda>m. m \<noteq> s) (map fst model_params)
          else map fst model_params
      | _ \<Rightarrow> map fst model_params)"
    unfolding ms_def by (rule edit_methods_order)
  have once: "distinct (map fst ms) \<and> set (map fst ms) = set (map fst model_params)"
    unfolding ms_def by (rule edit_methods_distinct)
  have initial: "\<exists>n\<le>length ms.
         attempts (trace (snd (snd R))) = attempts (trace w) @ take n (map fst ms)
         \<and> (\<forall>p. fst R = Inr (Some p) \<longrightarrow>
                0 < n \<and> (\<exists>d fname. p = path_join e d fname
                           \<and> prefix (''edit_'' @ map fst ms ! (n - 1) @ ''_'') fname))"
    unfolding ms_def R_def by (rule edit_image_chain)
  have success: "R = (Inr (Some p), tool, after_attempts e tool tp u kwargs (take (Suc k) ms) w2)
             \<and> attempts (trace (snd (snd R))) = attempts (trace w) @ take (Suc k) (map fst ms)
             \<and> (\<exists>d fname. p = path_join e d fname
                   \<and> prefix (''edit_'' @ fst (ms ! k) @ ''_'') fname)"
    if start: "edit_start e tool prompt image_path w = Some (u, tp, w2)"
      and k: "k < length ms"
      and before: "\<forall>j<k. attempt_fails (nth_attempt e tool tp u kwargs ms w2 j)"
      and saved: "nth_attempt e tool tp u kwargs ms w2 k = Inr p"
    for u tp w2 k p
  proof -
    have loop: "edit_loop e tool tp u kwargs ms w2 =
                  (Inr (Some p), after_attempts e tool tp u kwargs (take (Suc k) ms) w2)"
      by (rule edit_loop_first_success [OF k before saved])
    have run: "R = (Inr (Some p), tool, after_attempts e tool tp u kwargs (take (Suc k) ms) w2)"
      and w2: "attempts (trace w2) = attempts (trace w)"
      using edit_image_started [OF start, of kwargs] loop by (simp_all add: R_def ms_def)
    have models: "attempts (trace (snd (snd R))) = attempts (trace w) @ take (Suc k) (map fst ms)"
      by (simp add: run after_attempts_models w2 take_map)
    have tagged: "\<exists>d fname. p = path_join e d fname
                   \<and> prefix (''edit_'' @ fst (ms ! k) @ ''_'') fname"
      using k saved unfolding ms_def by (rule nth_method_tagged)
    show ?thesis using run models tagged by simp
  qed
  have failure: "R = (Inr None, bump_errors tool, after_attempts e tool tp u kwargs ms w2)
             \<and> attempts (trace (snd (snd R))) = attempts (trace w) @ map fst ms"
    if start: "edit_start e tool prompt image_path w = Some (u, tp, w2)"
      and all: "\<forall>j<length ms. attempt_fails (nth_attempt e tool tp u kwargs ms w2 j)"
    for u tp w2
  proof -
    have loop: "edit_loop e tool tp u kwargs ms w2 =
                  (Inr None, after_attempts e tool tp u kwargs ms w2)"
      by (rule edit_loop_all_fail [OF all])
    have run: "R = (Inr None, bump_errors tool, after_attempts e tool tp u kwargs ms w2)"
      and w2: "attempts (trace w2) = attempts (trace w)"
      using edit_image_started [OF start, of kwargs] loop by (simp_all add: R_def ms_def)
    show ?thesis by (simp add: run after_attempts_models w2)
  qed
  have early: "fst R = Inr None \<and> fst (snd R) = tool
             \<and> attempts (trace (snd (snd R))) = attempts (trace w)"
    if "edit_start e tool prompt image_path w = None"
    unfolding R_def using that by (rule edit_image_not_started)
  show ?thesis
    using order once initial success failure early by blast
qed

subsection \<open>Concrete runs of \<open>edit_image\<close>\<close>

lemma stub_env_fields:
  "http (stub_env h r) = h"
  "translator (stub_env h r) = (\<lambda>s. None)"
  "gofile (stub_env h r) = (\<lambda>p. Some ''https://host/d/1/in.png'')"
  "rng (stub_env h r) = (\<lambda>k. r)"
  "disk (stub_env h r) = (\<lambda>p. Saved)"
  "datetime_now (stub_env h r) = (\<lambda>tr. (10000000, 0))"
  "strftime (stub_env h r) = (\<lambda>t. ''20240101_120000'')"
  "path_join (stub_env h r) = (\<lambda>d f. d @ ''/'' @ f)"
  by (simp_all add: stub_env_def)

lemma stub_tool_fields:
  "config stub_tool = default_config"
  "gofile_token stub_tool = PyStr ''token''"
  "gofile_folder stub_tool = PyStr ''folder''"
  "config turbo_tool = default_config(''model_edicion'' \<mapsto> PyStr ''turbo'')"
  "gofile_token turbo_tool = PyStr ''token''"
  "gofile_folder turbo_tool = PyStr ''folder''"
  by (simp_all add: stub_tool_def turbo_tool_def)

lemma default_config_get:
  "dict_get default_config ''max_retries'' d = PyInt 3"
  "dict_get default_config ''output_dir'' d = PyStr ''./generated_images''"
  "dict_get default_config ''image_format'' d = PyStr ''PNG''"
  "dict_get default_config ''model_edicion'' d = PyStr ''kontext''"
  "dict_get (default_config(''model_edicion'' \<mapsto> PyStr ''turbo'')) ''max_retries'' d = PyInt 3"
  "dict_get (default_config(''model_edicion'' \<mapsto> PyStr ''turbo'')) ''output_dir'' d =
     PyStr ''./generated_images''"
  "dict_get (default_config(''model_edicion'' \<mapsto> PyStr ''turbo'')) ''image_format'' d = PyStr ''PNG''"
  "dict_get (default_config(''model_edicion'' \<mapsto> PyStr ''turbo'')) ''model_edicion'' d =
     PyStr ''turbo''"
  by (simp_all add: default_config_def dict_get_def)

lemma stub_methods: "edit_methods (preferred_model stub_tool) = model_params"
  by (simp add: preferred_model_def stub_tool_fields default_config_get
        edit_methods_def methods_to_try_def model_params_def)

lemma turbo_methods: "edit_methods (preferred_model turbo_tool) = model_params"
  by (simp add: preferred_model_def stub_tool_fields default_config_get
        edit_methods_def methods_to_try_def model_params_def)

lemma png_is_image: "\<not> not_an_image \<lparr>status_code = 200, content_type = Some ''image/png''\<rparr>"
  by (simp add: not_an_image_def sublist_code(3))

lemma budget_of_three: "[0..<3] = [0, 1, 2]"
  by code_simp

lemma edit_params_world:
  "snd (edit_params e tool kwargs model param pu w) = w\<lparr>draws := Suc (draws w)\<rparr>"
  by (simp add: edit_params_def randint_def)

lemma edit_world_start:
  "edit_start (stub_env h r) stub_tool ''cat'' ''in.png'' edit_world =
     Some (''https://host/d/1/in.png'', ''cat'', edit_world\<lparr>trace := [Upload ''in.png'']\<rparr>)"
  by (simp add: edit_start_def upload_to_gofile_def translate_prompt_def stub_tool_fields
        stub_env_fields edit_world_def emit_def)

lemma cat_file_names:
  "clean_prompt ''edit_kontext_cat'' = ''edit_kontext_cat''"
  "clean_prompt ''edit_flux_cat'' = ''edit_flux_cat''"
  "clean_prompt ''edit_flux-kontext_cat'' = ''edit_flux-kontext_cat''"
  by (simp_all add: clean_prompt_def strip_def py_lower_def is_word_def is_space_def
        ascii_alnum_def)

lemma lower_png:
  "py_lower CHR ''P'' = CHR ''p''"
  "py_lower CHR ''N'' = CHR ''n''"
  "py_lower CHR ''G'' = CHR ''g''"
  by code_simp+

lemmas run_edit_attempt =
  edit_attempt_def split_beta edit_params_world make_request_def budget_of_three emit_def
  num_gets_def http_response_def raises_for_status_def png_is_image generate_filename_def
  save_image_def Let_def stub_tool_fields stub_env_fields default_config_get cat_file_names
  lower_png edit_world_def

text \<open>Three known models, the first request answered by a 404 and the second by an
  image: the first attempt fails without a retry and the second saves the file.\<close>

lemma second_succeeds_attempts:
  "nth_attempt (stub_env second_succeeds 7) stub_tool ''cat'' ''https://host/d/1/in.png''
     Map.empty model_params (edit_world\<lparr>trace := [Upload ''in.png'']\<rparr>) 0 = Inl ConnectionError"
  "nth_attempt (stub_env second_succeeds 7) stub_tool ''cat'' ''https://host/d/1/in.png''
     Map.empty model_params (edit_world\<lparr>trace := [Upload ''in.png'']\<rparr>) 1 =
     Inr ''./generated_images/edit_flux_cat_20240101_120000.png''"
  by (simp_all add: nth_attempt_def model_params_def second_succeeds_def run_edit_attempt)

text \<open>Every request answered by a 404: each of the three attempts fails.\<close>

lemma all_fail_attempts:
  "j < 3 \<Longrightarrow>
   nth_attempt (stub_env (\<lambda>n. http_response 404 ''text/html'') 7) stub_tool ''cat''
     ''https://host/d/1/in.png'' Map.empty model_params
     (edit_world\<lparr>trace := [Upload ''in.png'']\<rparr>) j = Inl ConnectionError"
proof -
  assume "j < 3"
  then have "j = 0 \<or> j = 1 \<or> j = 2" by arith
  then show ?thesis
    by (elim disjE) (simp_all add: nth_attempt_def model_params_def run_edit_attempt)
qed

lemma three_models: "length model_params = 3"
  by (simp add: model_params_def)

theorem edit_fallback_chain_witness:
  "fst (edit_image (stub_env second_succeeds 7) stub_tool ''cat'' ''in.png'' Map.empty edit_world) =
     Inr (Some ''./generated_images/edit_flux_cat_20240101_120000.png'')
   \<and> attempts (trace (snd (snd (edit_image (stub_env second_succeeds 7) stub_tool ''cat''
          ''in.png'' Map.empty edit_world)))) = [''kontext'', ''flux'']
   \<and> fst (edit_image (stub_env (\<lambda>n. http_response 404 ''text/html'') 7) stub_tool ''cat''
          ''in.png'' Map.empty edit_world) = Inr None
   \<and> attempts (trace (snd (snd (edit_image (stub_env (\<lambda>n. http_response 404 ''text/html'') 7)
          stub_tool ''cat'' ''in.png'' Map.empty edit_world)))) =
       [''kontext'', ''flux'', ''flux-kontext'']
   \<and> errors (stats (fst (snd (edit_image (stub_env (\<lambda>n. http_response 404 ''text/html'') 7)
          stub_tool ''cat'' ''in.png'' Map.empty edit_world)))) = 1"
proof -
  let ?e2 = "stub_env second_succeeds 7"
  let ?e4 = "stub_env (\<lambda>n. http_response 404 ''text/html'') 7"
  let ?u = "''https://host/d/1/in.png''"
  let ?w2 = "edit_world\<lparr>trace := [Upload ''in.png'']\<rparr>"
  let ?p = "''./generated_images/edit_flux_cat_20240101_120000.png''"
  let ?R2 = "edit_image ?e2 stub_tool ''cat'' ''in.png'' Map.empty edit_world"
  let ?R4 = "edit_image ?e4 stub_tool ''cat'' ''in.png'' Map.empty edit_world"
  note T2 = edit_fallback_chain [where e = ?e2 and tool = stub_tool and prompt = "''cat''"
              and image_path = "''in.png''" and kwargs = Map.empty and w = edit_world,
              unfolded stub_methods]
  note T4 = edit_fallback_chain [where e = ?e4 and tool = stub_tool and prompt = "''cat''"
              and image_path = "''in.png''" and kwargs = Map.empty and w = edit_world,
              unfolded stub_methods]
  have second: "edit_start ?e2 stub_tool ''cat'' ''in.png'' edit_world = Some (?u, ''cat'', ?w2)
         \<and> 1 < length model_params
         \<and> (\<forall>j<1. attempt_fails (nth_attempt ?e2 stub_tool ''cat'' ?u Map.empty model_params ?w2 j))
         \<and> nth_attempt ?e2 stub_tool ''cat'' ?u Map.empty model_params ?w2 1 = Inr ?p"
    by (simp add: edit_world_start second_succeeds_attempts
          second_succeeds_attempts(2) [unfolded One_nat_def] three_models)
  note S2 = T2 [THEN conjunct2, THEN conjunct2, THEN conjunct2, THEN conjunct2, THEN conjunct1,
                rule_format, OF second]
  have a: "fst ?R2 = Inr (Some ?p)"
    using S2 [THEN conjunct1] by simp
  have b: "attempts (trace (snd (snd ?R2))) = [''kontext'', ''flux'']"
    using S2 [THEN conjunct2, THEN conjunct1] by (simp add: model_params_def edit_world_def)
  have none: "edit_start ?e4 stub_tool ''cat'' ''in.png'' edit_world = Some (?u, ''cat'', ?w2)
         \<and> (\<forall>j<length model_params.
               attempt_fails (nth_attempt ?e4 stub_tool ''cat'' ?u Map.empty model_params ?w2 j))"
    by (simp add: edit_world_start all_fail_attempts three_models)
  note S4 = T4 [THEN conjunct2, THEN conjunct2, THEN conjunct2, THEN conjunct2, THEN conjunct2,
                THEN conjunct1, rule_format, OF none]
  have c: "fst ?R4 = Inr None"
    using S4 [THEN conjunct1] by simp
  have d: "attempts (trace (snd (snd ?R4))) = [''kontext'', ''flux'', ''flux-kontext'']"
    using S4 [THEN conjunct2] by (simp add: model_params_def edit_world_def)
  have f: "errors (stats (fst (snd ?R4))) = 1"
    using S4 [THEN conjunct1] by (simp add: bump_errors_def stub_tool_def)
  show ?thesis
    using a b c d f by simp
qed

text \<open>A preferred model that is no key of \<open>model_params\<close> is never tried: with
  \<open>model_edicion\<close> set to \<open>turbo\<close> the first attempt, which succeeds here, is made with
  \<open>kontext\<close>.\<close>

theorem preferred_model_first_counterexample:
  "preferred_model turbo_tool = PyStr ''turbo''
   \<and> attempts (trace (snd (snd (edit_image (stub_env (\<lambda>n. http_response 200 ''image/png'') 7)
         turbo_tool ''cat'' ''in.png'' Map.empty edit_world)))) = [''kontext'']"
proof
  show "preferred_model turbo_tool = PyStr ''turbo''"
    by (simp add: preferred_model_def stub_tool_fields default_config_get)
  show "attempts (trace (snd (snd (edit_image (stub_env (\<lambda>n. http_response 200 ''image/png'') 7)
         turbo_tool ''cat'' ''in.png'' Map.empty edit_world)))) = [''kontext'']"
    by (simp add: edit_image_def turbo_methods upload_to_gofile_def translate_prompt_def
        stub_tool_fields stub_env_fields default_config_get model_params_def
        edit_attempt_def split_beta edit_params_world make_request_def budget_of_three
        edit_world_def emit_def num_gets_def http_response_def
        raises_for_status_def png_is_image generate_filename_def save_image_def Let_def)
qed

section \<open>The paths that the cache holds\<close>

lemma db_emit: "db (emit ev w) = db w"
  by (simp add: emit_def)

lemma db_backoff: "db (backoff m a w) = db w"
  by (simp add: backoff_def db_emit)

lemma make_request_loop_db:
  "db (snd (make_request_loop e url params headers m as w)) = db w"
proof (induction as arbitrary: w)
  case Nil
  show ?case by simp
next
  case (Cons a as)
  show ?case
    by (cases "http e (num_gets (trace w))")
       (simp_all add: Let_def Cons.IH db_backoff db_emit)
qed

lemma make_request_db:
  assumes "make_request e cfg url params headers w = (r, w')"
  shows "db w' = db w"
proof -
  have "db (snd (make_request e cfg url params headers w)) = db w"
    by (simp add: make_request_def make_request_loop_db split: option.splits)
  then show ?thesis using assms by simp
qed

lemma translate_prompt_db: "translate_prompt e txt w = (t, w') \<Longrightarrow> db w' = db w"
  by (auto simp: translate_prompt_def Let_def emit_def split: if_splits option.splits)

lemma save_image_db: "save_image e cfg filename w = (r, w') \<Longrightarrow> db w' = db w"
  by (auto simp: save_image_def Let_def split: pyval.splits save_outcome.splits)

lemma generate_fresh_paths:
  assumes "list_all (\<lambda>r. filepath r \<noteq> []) (db w)"
  shows "list_all (\<lambda>r. filepath r \<noteq> [])
           (db (snd (snd (generate_fresh e tool prompt params t0 w))))"
  using assms
  by (auto simp: generate_fresh_def generate_failed_def Let_def cache_store_def delete_row_def
                 list_all_iff
           split: prod.splits sum.splits option.splits
           dest!: translate_prompt_db make_request_db save_image_db)

text \<open>Every path that \<open>generate_image\<close> writes to the table is a non-empty string: if
  the rows have non-empty paths before a call, they have after it.\<close>

lemma generate_image_paths:
  assumes "list_all (\<lambda>r. filepath r \<noteq> []) (db w)"
  shows "list_all (\<lambda>r. filepath r \<noteq> [])
           (db (snd (snd (generate_image e tool prompt kwargs w))))"
proof -
  obtain params w0 where gp: "generate_params e tool kwargs w = (params, w0)"
    by (cases "generate_params e tool kwargs w")
  have w0: "w0 = w\<lparr>draws := Suc (draws w)\<rparr>"
    using generate_params_world [of e tool kwargs w] gp by simp
  obtain cp w1 where cg: "(case cache tool of None \<Rightarrow> (None, w0)
                           | Some c \<Rightarrow> cache_get e prompt params w0) = (cp, w1)"
    by (cases "case cache tool of None \<Rightarrow> (None, w0) | Some c \<Rightarrow> cache_get e prompt params w0")
  have w1: "list_all (\<lambda>r. filepath r \<noteq> []) (db w1)"
    using cg assms
    by (auto simp: w0 cache_get_def touch_row_def Let_def list_all_iff
             split: option.splits if_splits)
  show ?thesis
    using w1 generate_fresh_paths [of w1 e tool prompt params "time_time e (trace w)"]
    by (simp add: generate_image_def gp cg Let_def split: option.splits)
qed

end
